theory Spec2Isabelle
  imports Complex_Main "HOL-Library.Monad_Syntax"
begin

section \<open>The photo restoration pipeline of \<open>src/lib/image-processing.ts\<close>\<close>

text \<open>
  The embedding follows the TypeScript source function by function.

  \<^item> A JavaScript \<open>number\<close> is modelled as a \<open>real\<close>: arithmetic is exact. The source
    computes in IEEE doubles and keeps its working buffer in single precision; rounding,
    overflow, infinities and NaN have no counterpart here.
  \<^item> A \<open>Float32Array\<close> is a \<open>real list\<close>, a \<open>Uint8ClampedArray\<close> a \<open>nat list\<close>.
    A write past the end of a typed array is ignored, which is what \<open>xs[i := v]\<close> does.
    A read past the end yields \<open>undefined\<close>: \<open>readAt\<close> returns \<open>None\<close> there. Where the
    source would go on to compute with \<open>undefined\<close> (and so with NaN) the model stops
    with \<open>None\<close>; where the source tests for it (\<open>??\<close>) the model does too.
  \<^item> A counting \<open>for\<close> loop is \<open>forLoop\<close> over the list of values its variable takes.
  \<^item> \<open>ImageData\<close> is the platform's record of a width, a height and a byte buffer. Its
    constructor rejects a buffer whose length is not \<open>4 * width * height\<close>; that check
    is not part of the source and is not modelled. The statements assume a source bitmap
    of that shape and show the result has it too.
\<close>

subsection \<open>Typed arrays and loops\<close>

type_synonym float32Array = "real list"
type_synonym uint8ClampedArray = "nat list"

definition readAt :: "'a list \<Rightarrow> nat \<Rightarrow> 'a option" where
  "readAt xs i = (if i < length xs then Some (xs ! i) else None)"

fun forLoop :: "'i list \<Rightarrow> ('i \<Rightarrow> 's \<Rightarrow> 's option) \<Rightarrow> 's \<Rightarrow> 's option" where
  "forLoop [] body s = Some s"
| "forLoop (i # js) body s = (case body i s of None \<Rightarrow> None | Some s' \<Rightarrow> forLoop js body s')"

text \<open>The values of \<open>i\<close> in \<open>for (let i = 0; i < n; i += 4)\<close>.\<close>

definition pixelOffsets :: "nat \<Rightarrow> nat list" where
  "pixelOffsets n = map (\<lambda>k. 4 * k) [0..<(n + 3) div 4]"

text \<open>
  The conversion the platform applies on a store into a \<open>Uint8ClampedArray\<close>
  (ECMAScript \<open>ToUint8Clamp\<close>): clamp to \<open>[0, 255]\<close>, then round to the nearest integer,
  a tie going to the even one.
\<close>

definition toUint8Clamp :: "real \<Rightarrow> nat" where
  "toUint8Clamp x =
     (if x \<le> 0 then 0
      else if 255 \<le> x then 255
      else let f = \<lfloor>x\<rfloor> in
        if x - of_int f < 1 / 2 then nat f
        else if 1 / 2 < x - of_int f then nat (f + 1)
        else if even f then nat f else nat (f + 1))"

subsection \<open>Adjustments\<close>

record restorationAdjustments =
  exposure :: real
  contrast :: real
  saturation :: real
  vibrance :: real
  warmth :: real
  sepiaReduction :: real
  shadowLift :: real
  highlightRecovery :: real
  clarity :: real
  denoise :: real

definition DEFAULT_ADJUSTMENTS :: restorationAdjustments where
  "DEFAULT_ADJUSTMENTS =
     \<lparr>exposure = 6, contrast = 12, saturation = 16, vibrance = 18, warmth = 4,
      sepiaReduction = 30, shadowLift = 12, highlightRecovery = 8, clarity = 14,
      denoise = 18\<rparr>"

definition CLEAN_SLATE_ADJUSTMENTS :: restorationAdjustments where
  "CLEAN_SLATE_ADJUSTMENTS =
     \<lparr>exposure = 0, contrast = 0, saturation = 0, vibrance = 0, warmth = 0,
      sepiaReduction = 0, shadowLift = 0, highlightRecovery = 0, clarity = 0,
      denoise = 0\<rparr>"

subsection \<open>Scalar colour operations\<close>

text \<open>
  \<open>clamp\<close> has the default arguments \<open>min = 0\<close> and \<open>max = 255\<close> in the source; the model
  takes all three and every call writes them out. A parameter that shares its name with
  a field of \<open>restorationAdjustments\<close> is shortened: \<open>vib\<close>, \<open>lift\<close>, \<open>recovery\<close>, \<open>w\<close>.
\<close>

definition clamp :: "real \<Rightarrow> real \<Rightarrow> real \<Rightarrow> real" where
  "clamp value lo hi = min hi (max lo value)"

definition lerp :: "real \<Rightarrow> real \<Rightarrow> real \<Rightarrow> real" where
  "lerp start end amount = start + (end - start) * amount"

definition DEFAULT_ALPHA :: real where
  "DEFAULT_ALPHA = 255"

definition luminance :: "real \<Rightarrow> real \<Rightarrow> real \<Rightarrow> real" where
  "luminance r g b = 0.2126 * r + 0.7152 * g + 0.0722 * b"

definition adjustSaturation ::
  "real \<Rightarrow> real \<Rightarrow> real \<Rightarrow> real \<Rightarrow> real \<Rightarrow> real \<times> real \<times> real" where
  "adjustSaturation r g b amount vib =
     (if amount = 0 \<and> vib = 0 then (r, g, b)
      else
        let gray = luminance r g b;
            satFactor = 1 + amount;
            vibFactor = 1 + vib;
            enhance = (\<lambda>channel.
              clamp (lerp gray channel satFactor
                     + (channel - gray) * (vibFactor - 1) * (1 - gray / 255)) 0 255)
        in (enhance r, enhance g, enhance b))"

definition applyShadowHighlight ::
  "real \<Rightarrow> real \<Rightarrow> real \<Rightarrow> real \<Rightarrow> real \<Rightarrow> real \<times> real \<times> real" where
  "applyShadowHighlight r g b lift recovery =
     (if lift = 0 \<and> recovery = 0 then (r, g, b)
      else
        let gray = luminance r g b;
            shadowBoost =
              (if gray < 118 \<and> lift > 0
               then let influence = (118 - gray) / 118 in lift * influence * 0.6
               else 0);
            highlightReduction =
              (if gray > 170 \<and> recovery > 0
               then let influence = (gray - 170) / (255 - 170) in recovery * influence * 0.7
               else 0);
            adjustChannel = (\<lambda>channel. clamp (channel + shadowBoost - highlightReduction) 0 255)
        in (adjustChannel r, adjustChannel g, adjustChannel b))"

definition removeSepia :: "real \<Rightarrow> real \<Rightarrow> real \<Rightarrow> real \<Rightarrow> real \<times> real \<times> real" where
  "removeSepia r g b amount =
     (if amount \<le> 0 then (r, g, b)
      else
        let gray = luminance r g b;
            strength = amount * 0.75;
            cooledR = clamp (r - strength) 0 255;
            cooledG = clamp (g - strength * 0.5) 0 255;
            cooledB = clamp (b + strength * 0.6) 0 255
        in (lerp gray cooledR 0.75, lerp gray cooledG 0.85, lerp gray cooledB 1.1))"

definition applyWarmth :: "real \<Rightarrow> real \<Rightarrow> real \<Rightarrow> real \<Rightarrow> real \<times> real \<times> real" where
  "applyWarmth r g b w =
     (if w = 0 then (r, g, b)
      else
        let warmAmount = (if w > 0 then w * 1.2 else w);
            coolAmount = (if w < 0 then w * (-1.1) else 0)
        in (clamp (r + warmAmount) 0 255,
            clamp (g + warmAmount * 0.35) 0 255,
            clamp (b - warmAmount * 0.8 - coolAmount) 0 255))"

subsection \<open>The blur primitive\<close>

text \<open>The five accumulators of one window of \<open>boxBlur\<close>.\<close>

record kernelSums =
  sumR :: real
  sumG :: real
  sumB :: real
  sumA :: real
  samples :: nat

text \<open>The body of the \<open>kx\<close> loop: one sample of the window, skipped when out of bounds.\<close>

definition sampleColumn ::
  "float32Array \<Rightarrow> nat \<Rightarrow> nat \<Rightarrow> int \<Rightarrow> int \<Rightarrow> kernelSums \<Rightarrow> kernelSums option" where
  "sampleColumn source width x yy kx acc =
     (let xx = int x + kx in
      if xx < 0 \<or> xx \<ge> int width then Some acc
      else do {
        let idx = nat ((yy * int width + xx) * 4);
        r \<leftarrow> readAt source idx;
        g \<leftarrow> readAt source (idx + 1);
        b \<leftarrow> readAt source (idx + 2);
        a \<leftarrow> readAt source (idx + 3);
        Some \<lparr>sumR = sumR acc + r, sumG = sumG acc + g, sumB = sumB acc + b,
              sumA = sumA acc + a, samples = samples acc + 1\<rparr>
      })"

text \<open>The body of the \<open>ky\<close> loop: one row of the window, skipped when out of bounds.\<close>

definition sampleRow ::
  "float32Array \<Rightarrow> nat \<Rightarrow> nat \<Rightarrow> nat \<Rightarrow> nat \<Rightarrow> int \<Rightarrow> kernelSums \<Rightarrow> kernelSums option" where
  "sampleRow source width height x y ky acc =
     (let yy = int y + ky in
      if yy < 0 \<or> yy \<ge> int height then Some acc
      else forLoop [-1, 0, 1] (sampleColumn source width x yy) acc)"

text \<open>The body of the \<open>x\<close> loop: the window of pixel \<open>(x, y)\<close> and the four stores.\<close>

definition blurPixel ::
  "float32Array \<Rightarrow> nat \<Rightarrow> nat \<Rightarrow> nat \<Rightarrow> nat \<Rightarrow> float32Array \<Rightarrow> float32Array option" where
  "blurPixel source width height y x result = do {
     acc \<leftarrow> forLoop [-1, 0, 1] (sampleRow source width height x y)
              \<lparr>sumR = 0, sumG = 0, sumB = 0, sumA = 0, samples = 0\<rparr>;
     let target = (y * width + x) * 4;
     Some (result[target := sumR acc / real (samples acc),
                  target + 1 := sumG acc / real (samples acc),
                  target + 2 := sumB acc / real (samples acc),
                  target + 3 := sumA acc / real (samples acc)])
   }"

definition boxBlur :: "float32Array \<Rightarrow> nat \<Rightarrow> nat \<Rightarrow> float32Array option" where
  "boxBlur source width height =
     forLoop [0..<height]
       (\<lambda>y. forLoop [0..<width] (blurPixel source width height y))
       (replicate (length source) 0)"

subsection \<open>The pipeline\<close>

record imageData =
  width :: nat
  height :: nat
  data :: uint8ClampedArray

definition exposureOffset :: "restorationAdjustments \<Rightarrow> real" where
  "exposureOffset adjustments = exposure adjustments * 2.2"

text \<open>
  \<open>259 - contrast || 0.0001\<close> is \<open>(259 - contrast) || 0.0001\<close>: the right operand
  replaces a left operand that is zero.
\<close>

definition contrastDivisor :: "restorationAdjustments \<Rightarrow> real" where
  "contrastDivisor adjustments =
     (let c = clamp (contrast adjustments) (-80) 120
      in 255 * (if 259 - c = 0 then 0.0001 else 259 - c))"

definition contrastFactor :: "restorationAdjustments \<Rightarrow> real" where
  "contrastFactor adjustments =
     (let c = clamp (contrast adjustments) (-80) 120
      in (259 * (c + 255)) / contrastDivisor adjustments)"

text \<open>Lines 183 to 200: what one pass of the first loop does to the colour channels.\<close>

definition gradeChannels ::
  "restorationAdjustments \<Rightarrow> real \<Rightarrow> real \<Rightarrow> real \<Rightarrow> real \<times> real \<times> real" where
  "gradeChannels adjustments r0 g0 b0 =
     (let sepia = sepiaReduction adjustments / 100;
          r1 = clamp (r0 + exposureOffset adjustments) 0 255;
          g1 = clamp (g0 + exposureOffset adjustments) 0 255;
          b1 = clamp (b0 + exposureOffset adjustments) 0 255;
          r2 = clamp (contrastFactor adjustments * (r1 - 128) + 128) 0 255;
          g2 = clamp (contrastFactor adjustments * (g1 - 128) + 128) 0 255;
          b2 = clamp (contrastFactor adjustments * (b1 - 128) + 128) 0 255;
          (r3, g3, b3) = adjustSaturation r2 g2 b2
                           (saturation adjustments / 100) (vibrance adjustments / 100);
          (r4, g4, b4) = removeSepia r3 g3 b3 (sepia * 100);
          (r5, g5, b5) = applyWarmth r4 g4 b4 (warmth adjustments)
      in applyShadowHighlight r5 g5 b5
           (shadowLift adjustments) (highlightRecovery adjustments))"

text \<open>The body of the first loop (lines 178 to 205).\<close>

definition gradePixel ::
  "restorationAdjustments \<Rightarrow> nat \<Rightarrow> float32Array \<Rightarrow> float32Array option" where
  "gradePixel adjustments i working = do {
     r \<leftarrow> readAt working i;
     g \<leftarrow> readAt working (i + 1);
     b \<leftarrow> readAt working (i + 2);
     let a = (case readAt working (i + 3) of Some v \<Rightarrow> v | None \<Rightarrow> DEFAULT_ALPHA);
     let (r', g', b') = gradeChannels adjustments r g b;
     Some (working[i := clamp r' 0 255,
                   i + 1 := clamp g' 0 255,
                   i + 2 := clamp b' 0 255,
                   i + 3 := clamp a 0 255])
   }"

text \<open>The body of the denoise loop (lines 213 to 215).\<close>

definition denoisePixel ::
  "float32Array \<Rightarrow> real \<Rightarrow> nat \<Rightarrow> float32Array \<Rightarrow> float32Array option" where
  "denoisePixel blurred denoiseMix i working = do {
     r \<leftarrow> readAt working i;
     br \<leftarrow> readAt blurred i;
     let working = working[i := lerp r br denoiseMix];
     g \<leftarrow> readAt working (i + 1);
     bg \<leftarrow> readAt blurred (i + 1);
     let working = working[i + 1 := lerp g bg denoiseMix];
     b \<leftarrow> readAt working (i + 2);
     bb \<leftarrow> readAt blurred (i + 2);
     Some (working[i + 2 := lerp b bb denoiseMix])
   }"

text \<open>The body of the clarity loop (lines 224 to 234).\<close>

definition clarityPixel ::
  "float32Array \<Rightarrow> real \<Rightarrow> nat \<Rightarrow> float32Array \<Rightarrow> float32Array option" where
  "clarityPixel softened clarityMix i working = do {
     r \<leftarrow> readAt working i;
     sr \<leftarrow> readAt softened i;
     g \<leftarrow> readAt working (i + 1);
     sg \<leftarrow> readAt softened (i + 1);
     b \<leftarrow> readAt working (i + 2);
     sb \<leftarrow> readAt softened (i + 2);
     let detailR = r - sr;
     let detailG = g - sg;
     let detailB = b - sb;
     Some (working[i := clamp (r + detailR * (0.8 + clarityMix)) 0 255,
                   i + 1 := clamp (g + detailG * (0.8 + clarityMix * 0.9)) 0 255,
                   i + 2 := clamp (b + detailB * (0.8 + clarityMix * 0.9)) 0 255])
   }"

text \<open>Lines 208 to 217 and 219 to 236: the two passes built on the blur.\<close>

definition denoisePass ::
  "restorationAdjustments \<Rightarrow> nat \<Rightarrow> nat \<Rightarrow> float32Array \<Rightarrow> float32Array option" where
  "denoisePass adjustments w h working =
     (if denoise adjustments > 0 then do {
        blurred \<leftarrow> boxBlur working w h;
        let denoiseMix = min 0.85 (denoise adjustments / 100);
        forLoop (pixelOffsets (length working)) (denoisePixel blurred denoiseMix) working
      } else Some working)"

definition clarityPass ::
  "restorationAdjustments \<Rightarrow> nat \<Rightarrow> nat \<Rightarrow> float32Array \<Rightarrow> float32Array option" where
  "clarityPass adjustments w h working =
     (if clarity adjustments > 0 then do {
        softened \<leftarrow> boxBlur working w h;
        let clarityMix = clarity adjustments / 100;
        forLoop (pixelOffsets (length working)) (clarityPixel softened clarityMix) working
      } else Some working)"

text \<open>
  \<open>enhanceImageData\<close> on the contents of the bitmap. The loop of lines 164 to 166 copies
  \<open>data\<close> into a new array of the same length and the loop of lines 239 to 241 stores
  every clamped entry into a new \<open>Uint8ClampedArray\<close> of the same length: both are
  \<open>map\<close>.
\<close>

definition enhanceImageData :: "imageData \<Rightarrow> restorationAdjustments \<Rightarrow> imageData option" where
  "enhanceImageData sourceImageData adjustments = do {
     let working = map real (data sourceImageData);
     working \<leftarrow> forLoop (pixelOffsets (length working)) (gradePixel adjustments) working;
     working \<leftarrow> denoisePass adjustments (width sourceImageData) (height sourceImageData) working;
     working \<leftarrow> clarityPass adjustments (width sourceImageData) (height sourceImageData) working;
     let output = map (\<lambda>v. toUint8Clamp (clamp v 0 255)) working;
     Some \<lparr>width = width sourceImageData, height = height sourceImageData, data = output\<rparr>
   }"

subsection \<open>The buffers that cross the call\<close>

text \<open>
  \<open>working\<close>, \<open>blurred\<close> and \<open>softened\<close> are allocated inside the call and never leave
  it, so they are values above. The buffer of the source bitmap and the buffer of the
  returned bitmap are objects the caller can hold on to: here they live in a heap of
  byte buffers, an address being an index into it. \<open>new Uint8ClampedArray\<close> (line 238)
  allocates the next address; \<open>new ImageData(output, width, height)\<close> (line 243) wraps
  that buffer without copying it.
\<close>

type_synonym address = nat
type_synonym heap = "uint8ClampedArray list"

record imageDataRef =
  refWidth :: nat
  refHeight :: nat
  refData :: address

definition allocate :: "heap \<Rightarrow> uint8ClampedArray \<Rightarrow> heap \<times> address" where
  "allocate heap buffer = (heap @ [buffer], length heap)"

definition enhanceImageDataOnHeap ::
  "heap \<Rightarrow> imageDataRef \<Rightarrow> restorationAdjustments \<Rightarrow> (heap \<times> imageDataRef) option" where
  "enhanceImageDataOnHeap heap sourceImageData adjustments = do {
     bytes \<leftarrow> readAt heap (refData sourceImageData);
     result \<leftarrow> enhanceImageData
       \<lparr>width = refWidth sourceImageData, height = refHeight sourceImageData, data = bytes\<rparr>
       adjustments;
     let (heap', output) = allocate heap (data result);
     Some (heap', \<lparr>refWidth = width result, refHeight = height result, refData = output\<rparr>)
   }"

section \<open>Vocabulary of the statements\<close>

text \<open>
  The definitions of this section are not in the source: the statements below are
  written with them.
\<close>

subsection \<open>Pixels of a buffer\<close>

text \<open>Pixel \<open>k\<close> of an RGBA buffer: its entries \<open>4k\<close> to \<open>4k + 3\<close>.\<close>

definition pixelAt :: "'a list \<Rightarrow> nat \<Rightarrow> 'a \<times> 'a \<times> 'a \<times> 'a" where
  "pixelAt xs k = (xs ! (4 * k), xs ! (4 * k + 1), xs ! (4 * k + 2), xs ! (4 * k + 3))"

definition storePixel :: "nat \<Rightarrow> 'a \<times> 'a \<times> 'a \<times> 'a \<Rightarrow> 'a list \<Rightarrow> 'a list" where
  "storePixel k p xs =
     (case p of (r, g, b, a) \<Rightarrow> xs[4 * k := r, 4 * k + 1 := g, 4 * k + 2 := b, 4 * k + 3 := a])"

text \<open>What one pass of each of the three loops of \<open>enhanceImageData\<close> leaves in a pixel.\<close>

definition gradedPixel ::
  "restorationAdjustments \<Rightarrow> real \<times> real \<times> real \<times> real \<Rightarrow> real \<times> real \<times> real \<times> real" where
  "gradedPixel adjustments p =
     (case p of (r, g, b, a) \<Rightarrow>
        (case gradeChannels adjustments r g b of (r', g', b') \<Rightarrow>
           (clamp r' 0 255, clamp g' 0 255, clamp b' 0 255, clamp a 0 255)))"

definition denoisedPixel ::
  "real \<Rightarrow> real \<times> real \<times> real \<times> real \<Rightarrow> real \<times> real \<times> real \<times> real
     \<Rightarrow> real \<times> real \<times> real \<times> real" where
  "denoisedPixel denoiseMix q p =
     (case p of (r, g, b, a) \<Rightarrow> (case q of (br, bg, bb, ba) \<Rightarrow>
        (lerp r br denoiseMix, lerp g bg denoiseMix, lerp b bb denoiseMix, a)))"

definition clarifiedPixel ::
  "real \<Rightarrow> real \<times> real \<times> real \<times> real \<Rightarrow> real \<times> real \<times> real \<times> real
     \<Rightarrow> real \<times> real \<times> real \<times> real" where
  "clarifiedPixel clarityMix q p =
     (case p of (r, g, b, a) \<Rightarrow> (case q of (sr, sg, sb, sa) \<Rightarrow>
        (clamp (r + (r - sr) * (0.8 + clarityMix)) 0 255,
         clamp (g + (g - sg) * (0.8 + clarityMix * 0.9)) 0 255,
         clamp (b + (b - sb) * (0.8 + clarityMix * 0.9)) 0 255, a)))"

subsection \<open>The window of the blur\<close>

text \<open>
  \<open>nearby n c\<close> are the coordinates within distance one of \<open>c\<close> that exist on an axis of
  length \<open>n\<close>; \<open>window w h x y\<close> are the in-bounds pixels of the 3\<times>3 window centred at
  \<open>(x, y)\<close>; \<open>channelMean\<close> is the arithmetic mean of channel \<open>c\<close> over that window.
\<close>

definition nearby :: "nat \<Rightarrow> nat \<Rightarrow> nat set" where
  "nearby n c = {c'. c' < n \<and> c \<le> c' + 1 \<and> c' \<le> c + 1}"

definition window :: "nat \<Rightarrow> nat \<Rightarrow> nat \<Rightarrow> nat \<Rightarrow> (nat \<times> nat) set" where
  "window w h x y = nearby w x \<times> nearby h y"

definition channelMean :: "float32Array \<Rightarrow> nat \<Rightarrow> nat \<Rightarrow> nat \<Rightarrow> nat \<Rightarrow> nat \<Rightarrow> real" where
  "channelMean source w h x y c =
     (\<Sum>(xx, yy)\<in>window w h x y. source ! ((yy * w + xx) * 4 + c)) / real (card (window w h x y))"

text \<open>The same coordinates in the order the loops of \<open>boxBlur\<close> visit them.\<close>

definition nearList :: "nat \<Rightarrow> nat \<Rightarrow> nat list" where
  "nearList n c = (if 0 < c then [c - 1] else []) @ [c] @ (if c + 1 < n then [c + 1] else [])"

definition addSample :: "float32Array \<Rightarrow> nat \<Rightarrow> kernelSums \<Rightarrow> kernelSums" where
  "addSample source k acc =
     \<lparr>sumR = sumR acc + source ! (4 * k), sumG = sumG acc + source ! (4 * k + 1),
      sumB = sumB acc + source ! (4 * k + 2), sumA = sumA acc + source ! (4 * k + 3),
      samples = samples acc + 1\<rparr>"

subsection \<open>The pipeline without its blur passes\<close>

text \<open>
  The reference of the specification's skip property: steps 1 to 8 and step 11 of the
  pipeline, with steps 9 (denoise) and 10 (clarity) left out.
\<close>

definition restoreOmittingSteps9And10 ::
  "imageData \<Rightarrow> restorationAdjustments \<Rightarrow> imageData option" where
  "restoreOmittingSteps9And10 bitmap adjustments = do {
     let working = map real (data bitmap);
     working \<leftarrow> forLoop (pixelOffsets (length working)) (gradePixel adjustments) working;
     let output = map (\<lambda>v. toUint8Clamp (clamp v 0 255)) working;
     Some \<lparr>width = width bitmap, height = height bitmap, data = output\<rparr>
   }"

section \<open>Loops over pixels\<close>

text \<open>
  Every loop of the source that writes a buffer visits each pixel once and writes only
  the four entries of the pixel it visits. \<open>forLoop_pixels\<close> turns such a loop into a
  statement about each pixel of its result; the lemmas after it show that the bodies of
  the three loops of \<open>enhanceImageData\<close> and the body of \<open>boxBlur\<close> have that form on a
  buffer of the right length, where no read is out of range.
\<close>

lemma length_storePixel: "length (storePixel k p xs) = length xs"
  by (cases p) (simp add: storePixel_def)

lemma pixelAt_storePixel_same:
  "4 * k + 3 < length xs \<Longrightarrow> pixelAt (storePixel k p xs) k = p"
  by (cases p) (simp add: storePixel_def pixelAt_def)

lemma pixelAt_storePixel_other:
  "j \<noteq> k \<Longrightarrow> pixelAt (storePixel k p xs) j = pixelAt xs j"
  by (cases p) (simp add: storePixel_def pixelAt_def)

lemma forLoop_append:
  "forLoop (xs @ ys) body s =
     (case forLoop xs body s of None \<Rightarrow> None | Some s' \<Rightarrow> forLoop ys body s')"
  by (induction xs arbitrary: s) (auto split: option.splits)

lemma forLoop_map: "forLoop (map f xs) body s = forLoop xs (\<lambda>x. body (f x)) s"
  by (induction xs arbitrary: s) (auto split: option.splits)

lemma forLoop_product:
  "forLoop ys (\<lambda>y. forLoop xs (body y)) s = forLoop (List.product ys xs) (\<lambda>(y, x). body y x) s"
proof (induction ys arbitrary: s)
  case Nil
  then show ?case by simp
next
  case (Cons y ys)
  show ?case
    by (simp add: forLoop_append forLoop_map Cons.IH split: option.splits)
qed

lemma forLoop_unchanged:
  "(\<And>i. i \<in> set js \<Longrightarrow> body i s = Some s) \<Longrightarrow> forLoop js body s = Some s"
  by (induction js) auto

lemma forLoop_pixels:
  assumes "distinct (map idx ps)" and "\<forall>p\<in>set ps. idx p < n" and "length w = 4 * n"
    and "\<And>p v. p \<in> set ps \<Longrightarrow> length v = 4 * n \<Longrightarrow>
           body p v = Some (storePixel (idx p) (F p (pixelAt v (idx p))) v)"
  shows "\<exists>w'. forLoop ps body w = Some w' \<and> length w' = 4 * n
           \<and> (\<forall>p\<in>set ps. pixelAt w' (idx p) = F p (pixelAt w (idx p)))
           \<and> (\<forall>k. k \<notin> idx ` set ps \<longrightarrow> pixelAt w' k = pixelAt w k)"
  using assms
proof (induction ps arbitrary: w)
  case Nil
  then show ?case by simp
next
  case (Cons p ps)
  let ?w1 = "storePixel (idx p) (F p (pixelAt w (idx p))) w"
  have step: "body p w = Some ?w1"
    using Cons.prems(3,4) by simp
  have len1: "length ?w1 = 4 * n"
    using Cons.prems(3) by (simp add: length_storePixel)
  have "\<exists>w'. forLoop ps body ?w1 = Some w' \<and> length w' = 4 * n
           \<and> (\<forall>q\<in>set ps. pixelAt w' (idx q) = F q (pixelAt ?w1 (idx q)))
           \<and> (\<forall>k. k \<notin> idx ` set ps \<longrightarrow> pixelAt w' k = pixelAt ?w1 k)"
    using Cons.prems by (intro Cons.IH len1) auto
  then obtain w' where w': "forLoop ps body ?w1 = Some w'" "length w' = 4 * n"
    "\<forall>q\<in>set ps. pixelAt w' (idx q) = F q (pixelAt ?w1 (idx q))"
    "\<forall>k. k \<notin> idx ` set ps \<longrightarrow> pixelAt w' k = pixelAt ?w1 k"
    by blast
  have notin: "idx p \<notin> idx ` set ps"
    using Cons.prems(1) by auto
  have inrange: "4 * idx p + 3 < length w"
    using Cons.prems(2,3) by auto
  have a: "pixelAt w' (idx p) = F p (pixelAt w (idx p))"
    using w'(4) notin inrange by (simp add: pixelAt_storePixel_same)
  have b: "\<forall>q\<in>set ps. pixelAt w' (idx q) = F q (pixelAt w (idx q))"
  proof
    fix q assume q: "q \<in> set ps"
    then have "idx q \<noteq> idx p" using notin by (metis imageI)
    then show "pixelAt w' (idx q) = F q (pixelAt w (idx q))"
      using w'(3) q by (simp add: pixelAt_storePixel_other)
  qed
  have c: "\<forall>k. k \<notin> idx ` set (p # ps) \<longrightarrow> pixelAt w' k = pixelAt w k"
    using w'(4) by (auto simp: pixelAt_storePixel_other)
  show ?case
    using step w'(1,2) a b c by auto
qed

lemma pixelOffsets_4: "pixelOffsets (4 * n) = map (\<lambda>k. 4 * k) [0..<n]"
  by (simp add: pixelOffsets_def)

lemma gradePixel_step:
  "4 * k + 3 < length v \<Longrightarrow>
     gradePixel adjustments (4 * k) v = Some (storePixel k (gradedPixel adjustments (pixelAt v k)) v)"
  by (simp add: gradePixel_def readAt_def storePixel_def gradedPixel_def pixelAt_def
      split: prod.splits)

lemma list_update_keep: "ys ! m = x \<Longrightarrow> ys = ys[m := x]"
  by (metis list_update_id)

lemma denoisePixel_step:
  "4 * k + 3 < length v \<Longrightarrow> length blurred = length v \<Longrightarrow>
     denoisePixel blurred m (4 * k) v
       = Some (storePixel k (denoisedPixel m (pixelAt blurred k) (pixelAt v k)) v)"
  by (simp add: denoisePixel_def readAt_def storePixel_def denoisedPixel_def pixelAt_def)
    (rule list_update_keep, simp)

lemma clarityPixel_step:
  "4 * k + 3 < length v \<Longrightarrow> length softened = length v \<Longrightarrow>
     clarityPixel softened m (4 * k) v
       = Some (storePixel k (clarifiedPixel m (pixelAt softened k) (pixelAt v k)) v)"
  by (simp add: clarityPixel_def readAt_def storePixel_def clarifiedPixel_def pixelAt_def)
    (rule list_update_keep, simp)

lemma pixelLoop:
  assumes len: "length w = 4 * n"
    and step: "\<And>k v. k < n \<Longrightarrow> length v = 4 * n \<Longrightarrow>
                 body (4 * k) v = Some (storePixel k (F k (pixelAt v k)) v)"
  shows "\<exists>w'. forLoop (pixelOffsets (length w)) body w = Some w' \<and> length w' = 4 * n
           \<and> (\<forall>k<n. pixelAt w' k = F k (pixelAt w k))"
proof -
  have "\<exists>w'. forLoop [0..<n] (\<lambda>k. body (4 * k)) w = Some w' \<and> length w' = 4 * n
           \<and> (\<forall>p\<in>set [0..<n]. pixelAt w' (id p) = F p (pixelAt w (id p)))
           \<and> (\<forall>k. k \<notin> id ` set [0..<n] \<longrightarrow> pixelAt w' k = pixelAt w k)"
    by (rule forLoop_pixels) (use len step in auto)
  then show ?thesis
    by (auto simp: len pixelOffsets_4 forLoop_map)
qed

lemma gradeLoop:
  assumes "length w = 4 * n"
  shows "\<exists>w'. forLoop (pixelOffsets (length w)) (gradePixel adjustments) w = Some w'
           \<and> length w' = 4 * n
           \<and> (\<forall>k<n. pixelAt w' k = gradedPixel adjustments (pixelAt w k))"
  by (rule pixelLoop [OF assms]) (simp add: gradePixel_step)

lemma denoiseLoop:
  assumes "length w = 4 * n" and "length blurred = 4 * n"
  shows "\<exists>w'. forLoop (pixelOffsets (length w)) (denoisePixel blurred m) w = Some w'
           \<and> length w' = 4 * n
           \<and> (\<forall>k<n. pixelAt w' k = denoisedPixel m (pixelAt blurred k) (pixelAt w k))"
  by (rule pixelLoop [OF assms(1)]) (simp add: denoisePixel_step assms(2))

lemma clarityLoop:
  assumes "length w = 4 * n" and "length softened = 4 * n"
  shows "\<exists>w'. forLoop (pixelOffsets (length w)) (clarityPixel softened m) w = Some w'
           \<and> length w' = 4 * n
           \<and> (\<forall>k<n. pixelAt w' k = clarifiedPixel m (pixelAt softened k) (pixelAt w k))"
  by (rule pixelLoop [OF assms(1)]) (simp add: clarityPixel_step assms(2))

lemma set_nearList: "c < n \<Longrightarrow> set (nearList n c) = nearby n c"
  by (auto simp: nearList_def nearby_def)

lemma distinct_nearList: "distinct (nearList n c)"
  by (auto simp: nearList_def)

lemma finite_nearby: "finite (nearby n c)"
  by (simp add: nearby_def)

lemma nearby_self: "c < n \<Longrightarrow> c \<in> nearby n c"
  by (simp add: nearby_def)

lemma sampleColumn_skip:
  "int x + kx < 0 \<or> int w \<le> int x + kx \<Longrightarrow> sampleColumn source w x yy kx acc = Some acc"
  by (auto simp: sampleColumn_def)

lemma sampleColumn_take:
  assumes "int xx = int x + kx" and "xx < w" and "4 * (yn * w + xx) + 3 < length source"
  shows "sampleColumn source w x (int yn) kx acc = Some (addSample source (yn * w + xx) acc)"
proof -
  have "(int yn * int w + (int x + kx)) * 4 = int (4 * (yn * w + xx))"
    using assms(1) by simp
  then have idx: "nat ((int yn * int w + (int x + kx)) * 4) = 4 * (yn * w + xx)"
    by (metis nat_int)
  have inb: "\<not> (int x + kx < 0 \<or> int w \<le> int x + kx)"
    using assms(1,2) by linarith
  show ?thesis
    unfolding sampleColumn_def Let_def idx
    using inb assms(3) by (simp add: readAt_def addSample_def)
qed

lemma pixel_in_range:
  "(xx::nat) < w \<Longrightarrow> (yy::nat) < h \<Longrightarrow> 4 * (yy * w + xx) + 3 < 4 * (w * h)"
proof -
  assume a: "xx < w" "yy < h"
  have "yy * w + xx < Suc yy * w" using a(1) by simp
  also have "\<dots> \<le> h * w" using a(2) by (intro mult_le_mono1) simp
  finally have "Suc (yy * w + xx) \<le> w * h" by (simp add: mult.commute)
  then have "4 * Suc (yy * w + xx) \<le> 4 * (w * h)" by (rule mult_le_mono2)
  then show ?thesis by simp
qed

lemma column_loop:
  assumes "x < w" and "yn < h" and "length source = 4 * (w * h)"
  shows "forLoop [-1, 0, 1] (sampleColumn source w x (int yn)) acc
           = Some (fold (\<lambda>xx. addSample source (yn * w + xx)) (nearList w x) acc)"
proof -
  have rng: "4 * (yn * w + xx) + 3 < length source" if "xx < w" for xx
    using pixel_in_range [OF that assms(2)] assms(3) by linarith
  have left: "sampleColumn source w x (int yn) (-1) a
                = Some (if 0 < x then addSample source (yn * w + (x - 1)) a else a)" for a
  proof (cases "0 < x")
    case True
    have "sampleColumn source w x (int yn) (-1) a
            = Some (addSample source (yn * w + (x - 1)) a)"
      using True assms(1) rng [of "x - 1"] by (intro sampleColumn_take) auto
    then show ?thesis using True by simp
  next
    case False
    then show ?thesis by (simp add: sampleColumn_skip)
  qed
  have mid: "sampleColumn source w x (int yn) 0 a = Some (addSample source (yn * w + x) a)" for a
    using assms(1) rng [of x] by (intro sampleColumn_take) auto
  have right: "sampleColumn source w x (int yn) 1 a
                = Some (if x + 1 < w then addSample source (yn * w + (x + 1)) a else a)" for a
  proof (cases "x + 1 < w")
    case True
    have "sampleColumn source w x (int yn) 1 a
            = Some (addSample source (yn * w + (x + 1)) a)"
      using True rng [of "x + 1"] by (intro sampleColumn_take) auto
    then show ?thesis using True by simp
  next
    case False
    then show ?thesis by (simp add: sampleColumn_skip)
  qed
  show ?thesis
    by (simp add: left mid right nearList_def)
qed

lemma sampleRow_skip:
  "int y + ky < 0 \<or> int h \<le> int y + ky \<Longrightarrow> sampleRow source w h x y ky acc = Some acc"
  by (auto simp: sampleRow_def)

lemma sampleRow_take:
  assumes "int yn = int y + ky" and "yn < h" and "x < w" and "length source = 4 * (w * h)"
  shows "sampleRow source w h x y ky acc
           = Some (fold (\<lambda>xx. addSample source (yn * w + xx)) (nearList w x) acc)"
proof -
  have inb: "\<not> (int y + ky < 0 \<or> int h \<le> int y + ky)"
    using assms(1,2) by linarith
  have "sampleRow source w h x y ky acc
          = forLoop [-1, 0, 1] (sampleColumn source w x (int yn)) acc"
    using inb by (simp add: sampleRow_def Let_def assms(1))
  then show ?thesis
    by (simp only: column_loop [OF assms(3) assms(2) assms(4)])
qed

lemma row_loop:
  assumes "x < w" and "y < h" and "length source = 4 * (w * h)"
  shows "forLoop [-1, 0, 1] (sampleRow source w h x y) acc
           = Some (fold (\<lambda>yy. fold (\<lambda>xx. addSample source (yy * w + xx)) (nearList w x))
                     (nearList h y) acc)"
proof -
  have up: "sampleRow source w h x y (-1) a
              = Some (if 0 < y
                      then fold (\<lambda>xx. addSample source ((y - 1) * w + xx)) (nearList w x) a
                      else a)" for a
  proof (cases "0 < y")
    case True
    have "sampleRow source w h x y (-1) a
            = Some (fold (\<lambda>xx. addSample source ((y - 1) * w + xx)) (nearList w x) a)"
      by (rule sampleRow_take) (use True assms in auto)
    then show ?thesis using True by simp
  next
    case False
    then show ?thesis by (simp add: sampleRow_skip)
  qed
  have mid: "sampleRow source w h x y 0 a
              = Some (fold (\<lambda>xx. addSample source (y * w + xx)) (nearList w x) a)" for a
    by (rule sampleRow_take) (use assms in auto)
  have down: "sampleRow source w h x y 1 a
              = Some (if y + 1 < h
                      then fold (\<lambda>xx. addSample source ((y + 1) * w + xx)) (nearList w x) a
                      else a)" for a
  proof (cases "y + 1 < h")
    case True
    have "sampleRow source w h x y 1 a
            = Some (fold (\<lambda>xx. addSample source ((y + 1) * w + xx)) (nearList w x) a)"
      by (rule sampleRow_take) (use True assms in auto)
    then show ?thesis using True by simp
  next
    case False
    then show ?thesis by (simp add: sampleRow_skip)
  qed
  show ?thesis
    by (simp add: up mid down nearList_def [where n = h])
qed

lemma fold_addSample:
  "fold (\<lambda>p. addSample source (g p)) ps acc =
     \<lparr>sumR = sumR acc + (\<Sum>p\<leftarrow>ps. source ! (4 * g p)),
      sumG = sumG acc + (\<Sum>p\<leftarrow>ps. source ! (4 * g p + 1)),
      sumB = sumB acc + (\<Sum>p\<leftarrow>ps. source ! (4 * g p + 2)),
      sumA = sumA acc + (\<Sum>p\<leftarrow>ps. source ! (4 * g p + 3)),
      samples = samples acc + length ps\<rparr>"
  by (induction ps arbitrary: acc) (simp_all add: addSample_def)

lemma fold_product:
  "fold (\<lambda>y. fold (f y) xs) ys s = fold (\<lambda>(y, x). f y x) (List.product ys xs) s"
  by (induction ys arbitrary: s) (simp_all add: fold_map comp_def)

lemma sum_list_window:
  assumes "x < w" and "y < h"
  shows "(\<Sum>(yy, xx)\<leftarrow>List.product (nearList h y) (nearList w x). f xx yy)
           = (\<Sum>(xx, yy)\<in>window w h x y. f xx yy)"
proof -
  have d: "distinct (List.product (nearList h y) (nearList w x))"
    by (simp add: distinct_product distinct_nearList)
  have "(\<Sum>(yy, xx)\<leftarrow>List.product (nearList h y) (nearList w x). f xx yy)
          = (\<Sum>(yy, xx)\<in>nearby h y \<times> nearby w x. f xx yy)"
    using sum_list_distinct_conv_sum_set [OF d, of "\<lambda>(yy, xx). f xx yy"]
    by (simp add: set_nearList assms)
  also have "\<dots> = (\<Sum>yy\<in>nearby h y. \<Sum>xx\<in>nearby w x. f xx yy)"
    by (simp add: sum.cartesian_product)
  also have "\<dots> = (\<Sum>xx\<in>nearby w x. \<Sum>yy\<in>nearby h y. f xx yy)"
    by (rule sum.swap)
  also have "\<dots> = (\<Sum>(xx, yy)\<in>window w h x y. f xx yy)"
    by (simp add: sum.cartesian_product window_def)
  finally show ?thesis .
qed

lemma card_window:
  assumes "x < w" and "y < h"
  shows "card (window w h x y) = length (List.product (nearList h y) (nearList w x))"
proof -
  have "card (window w h x y) = card (nearby w x) * card (nearby h y)"
    by (simp add: window_def card_cartesian_product)
  also have "\<dots> = length (nearList w x) * length (nearList h y)"
    using distinct_card [OF distinct_nearList [of w x]] distinct_card [OF distinct_nearList [of h y]]
    by (simp add: set_nearList assms)
  finally show ?thesis by (simp add: mult.commute)
qed

lemma blurPixel_step:
  assumes "x < w" and "y < h" and "length source = 4 * (w * h)"
  shows "blurPixel source w h y x result
           = Some (storePixel (y * w + x)
                    (channelMean source w h x y 0, channelMean source w h x y 1,
                     channelMean source w h x y 2, channelMean source w h x y 3) result)"
proof -
  let ?ps = "List.product (nearList h y) (nearList w x)"
  let ?g = "\<lambda>(yy, xx). yy * w + xx"
  let ?m = "\<lambda>c. (\<Sum>p\<leftarrow>?ps. source ! (4 * ?g p + c)) / real (length ?ps)"
  have eq: "(\<lambda>(yy, xx). addSample source (yy * w + xx)) = (\<lambda>p. addSample source (?g p))"
    by auto
  have loop: "forLoop [-1, 0, 1] (sampleRow source w h x y) z
                = Some (fold (\<lambda>p. addSample source (?g p)) ?ps z)" for z
    by (simp only: row_loop [OF assms] fold_product eq)
  have r1: "blurPixel source w h y x result
              = Some (result[(y * w + x) * 4 := ?m 0, (y * w + x) * 4 + 1 := ?m 1,
                             (y * w + x) * 4 + 2 := ?m 2, (y * w + x) * 4 + 3 := ?m 3])"
    unfolding blurPixel_def loop fold_addSample by (simp add: Let_def)
  have s: "(\<Sum>p\<leftarrow>?ps. source ! (4 * ?g p + c))
             = (\<Sum>(xx, yy)\<in>window w h x y. source ! ((yy * w + xx) * 4 + c))" for c
  proof -
    have "(\<lambda>p. source ! (4 * ?g p + c)) = (\<lambda>(yy, xx). source ! ((yy * w + xx) * 4 + c))"
      by (auto simp: mult.commute)
    then show ?thesis
      using sum_list_window [OF assms(1,2), of "\<lambda>xx yy. source ! ((yy * w + xx) * 4 + c)"]
      by (simp only:)
  qed
  have m: "?m c = channelMean source w h x y c" for c
    by (simp only: s card_window [OF assms(1,2)] channelMean_def)
  show ?thesis
    unfolding r1 m storePixel_def by (simp add: mult.commute)
qed

lemma pixel_index_less: "(x::nat) < w \<Longrightarrow> y < h \<Longrightarrow> y * w + x < w * h"
  using pixel_in_range [of x w y h] by simp

lemma pixel_index_inj:
  "(x::nat) < w \<Longrightarrow> x' < w \<Longrightarrow> y * w + x = y' * w + x' \<Longrightarrow> y = y' \<and> x = x'"
  by (metis add.commute add_right_cancel div_mult_self3 div_less less_nat_zero_code mod_less mod_mult_self3)

lemma boxBlur_pixels:
  assumes "length source = 4 * (w * h)"
  shows "\<exists>result. boxBlur source w h = Some result \<and> length result = 4 * (w * h)
           \<and> (\<forall>x<w. \<forall>y<h. pixelAt result (y * w + x)
                 = (channelMean source w h x y 0, channelMean source w h x y 1,
                    channelMean source w h x y 2, channelMean source w h x y 3))"
proof -
  let ?ps = "List.product [0..<h] [0..<w]"
  let ?idx = "\<lambda>(y, x). y * w + x"
  let ?F = "\<lambda>(y, x) (q :: real \<times> real \<times> real \<times> real).
              (channelMean source w h x y 0, channelMean source w h x y 1,
               channelMean source w h x y 2, channelMean source w h x y 3)"
  have inj: "inj_on ?idx ({0..<h} \<times> {0..<w})"
  proof (rule inj_onI)
    fix p q
    assume p: "p \<in> {0..<h} \<times> {0..<w}" and q: "q \<in> {0..<h} \<times> {0..<w}"
      and e: "?idx p = ?idx q"
    obtain y x y' x' where pq: "p = (y, x)" "q = (y', x')"
      by (cases p, cases q) blast
    have "x < w" "x' < w" "y * w + x = y' * w + x'"
      using p q e by (auto simp: pq)
    then show "p = q"
      using pixel_index_inj [of x w x' y y'] by (simp add: pq)
  qed
  have d: "distinct (map ?idx ?ps)"
    by (simp add: distinct_map distinct_product inj)
  have b: "\<forall>p\<in>set ?ps. ?idx p < w * h"
    by (auto simp: pixel_index_less)
  have "\<exists>w'. forLoop ?ps (\<lambda>(y, x). blurPixel source w h y x) (replicate (length source) 0)
               = Some w' \<and> length w' = 4 * (w * h)
           \<and> (\<forall>p\<in>set ?ps. pixelAt w' (?idx p) = ?F p (pixelAt (replicate (length source) 0) (?idx p)))
           \<and> (\<forall>k. k \<notin> ?idx ` set ?ps \<longrightarrow> pixelAt w' k = pixelAt (replicate (length source) 0) k)"
    by (rule forLoop_pixels [OF d b]) (auto simp: assms blurPixel_step)
  then show ?thesis
    by (auto simp: boxBlur_def forLoop_product)
qed

section \<open>The pipeline as a whole\<close>

text \<open>
  On a bitmap of the right shape every pass succeeds, keeps the length of the buffer and
  leaves the alpha entries as they were (the first loop clamps them).
\<close>

lemma clamp_bounds: "0 \<le> clamp v 0 255" "clamp v 0 255 \<le> 255"
  by (simp_all add: clamp_def)

lemma clamp_id: "0 \<le> v \<Longrightarrow> v \<le> 255 \<Longrightarrow> clamp v 0 255 = v"
  by (simp add: clamp_def)

lemma clamp_clamp: "clamp (clamp v 0 255) 0 255 = clamp v 0 255"
  by (simp add: clamp_def)

lemma toUint8Clamp_le: "toUint8Clamp x \<le> 255"
proof -
  have "nat \<lfloor>x\<rfloor> \<le> 255" if "x < 255" using that by linarith
  moreover have "nat (\<lfloor>x\<rfloor> + 1) \<le> 255" if "x < 255" using that by linarith
  ultimately show ?thesis
    by (auto simp: toUint8Clamp_def Let_def)
qed

lemma toUint8Clamp_nat: "n \<le> 255 \<Longrightarrow> toUint8Clamp (real n) = n"
  by (auto simp: toUint8Clamp_def Let_def)

lemma quantize_byte: "n \<le> 255 \<Longrightarrow> toUint8Clamp (clamp (real n) 0 255) = n"
  by (simp add: clamp_id toUint8Clamp_nat)

lemma denoisePass_ok:
  assumes "length v = 4 * (w * h)"
  shows "\<exists>v'. denoisePass adjustments w h v = Some v' \<and> length v' = 4 * (w * h)
           \<and> (\<forall>k<w * h. v' ! (4 * k + 3) = v ! (4 * k + 3))"
proof (cases "denoise adjustments > 0")
  case False
  then show ?thesis by (simp add: denoisePass_def assms)
next
  case True
  obtain blurred where b: "boxBlur v w h = Some blurred" "length blurred = 4 * (w * h)"
    using boxBlur_pixels [OF assms] by blast
  obtain v' where v': "forLoop (pixelOffsets (length v))
        (denoisePixel blurred (min 0.85 (denoise adjustments / 100))) v = Some v'"
      "length v' = 4 * (w * h)"
      "\<forall>k<w * h. pixelAt v' k
         = denoisedPixel (min 0.85 (denoise adjustments / 100)) (pixelAt blurred k) (pixelAt v k)"
    using denoiseLoop [OF assms b(2)] by blast
  have "\<forall>k<w * h. v' ! (4 * k + 3) = v ! (4 * k + 3)"
    using v'(3) by (auto simp: pixelAt_def denoisedPixel_def)
  then show ?thesis
    using True b(1) v'(1,2) by (simp add: denoisePass_def)
qed

lemma clarityPass_ok:
  assumes "length v = 4 * (w * h)"
  shows "\<exists>v'. clarityPass adjustments w h v = Some v' \<and> length v' = 4 * (w * h)
           \<and> (\<forall>k<w * h. v' ! (4 * k + 3) = v ! (4 * k + 3))"
proof (cases "clarity adjustments > 0")
  case False
  then show ?thesis by (simp add: clarityPass_def assms)
next
  case True
  obtain softened where b: "boxBlur v w h = Some softened" "length softened = 4 * (w * h)"
    using boxBlur_pixels [OF assms] by blast
  obtain v' where v': "forLoop (pixelOffsets (length v))
        (clarityPixel softened (clarity adjustments / 100)) v = Some v'"
      "length v' = 4 * (w * h)"
      "\<forall>k<w * h. pixelAt v' k
         = clarifiedPixel (clarity adjustments / 100) (pixelAt softened k) (pixelAt v k)"
    using clarityLoop [OF assms b(2)] by blast
  have "\<forall>k<w * h. v' ! (4 * k + 3) = v ! (4 * k + 3)"
    using v'(3) by (auto simp: pixelAt_def clarifiedPixel_def)
  then show ?thesis
    using True b(1) v'(1,2) by (simp add: clarityPass_def)
qed

lemma gradeLoop_alpha:
  assumes "length v = 4 * n"
  shows "\<exists>v'. forLoop (pixelOffsets (length v)) (gradePixel adjustments) v = Some v'
           \<and> length v' = 4 * n
           \<and> (\<forall>k<n. v' ! (4 * k + 3) = clamp (v ! (4 * k + 3)) 0 255)"
proof -
  obtain v' where v': "forLoop (pixelOffsets (length v)) (gradePixel adjustments) v = Some v'"
      "length v' = 4 * n" "\<forall>k<n. pixelAt v' k = gradedPixel adjustments (pixelAt v k)"
    using gradeLoop [OF assms] by blast
  have "\<forall>k<n. v' ! (4 * k + 3) = clamp (v ! (4 * k + 3)) 0 255"
    using v'(3) by (simp add: pixelAt_def gradedPixel_def case_prod_unfold)
  then show ?thesis using v'(1,2) by blast
qed

lemma enhanceImageData_ok:
  assumes "length (data bitmap) = 4 * (width bitmap * height bitmap)"
  shows "\<exists>out. enhanceImageData bitmap adjustments = Some out
           \<and> width out = width bitmap \<and> height out = height bitmap
           \<and> length (data out) = length (data bitmap)
           \<and> (\<forall>i<length (data out). data out ! i \<le> 255)
           \<and> (\<forall>k<width bitmap * height bitmap.
                 data out ! (4 * k + 3)
                   = toUint8Clamp (clamp (real (data bitmap ! (4 * k + 3))) 0 255))"
proof -
  let ?n = "width bitmap * height bitmap"
  let ?w0 = "map real (data bitmap)"
  have l0: "length ?w0 = 4 * ?n" using assms by simp
  obtain w1 where w1: "forLoop (pixelOffsets (length ?w0)) (gradePixel adjustments) ?w0 = Some w1"
      "length w1 = 4 * ?n" "\<forall>k<?n. w1 ! (4 * k + 3) = clamp (?w0 ! (4 * k + 3)) 0 255"
    using gradeLoop_alpha [OF l0] by blast
  obtain w2 where w2: "denoisePass adjustments (width bitmap) (height bitmap) w1 = Some w2"
      "length w2 = 4 * ?n" "\<forall>k<?n. w2 ! (4 * k + 3) = w1 ! (4 * k + 3)"
    using denoisePass_ok [OF w1(2)] by blast
  obtain w3 where w3: "clarityPass adjustments (width bitmap) (height bitmap) w2 = Some w3"
      "length w3 = 4 * ?n" "\<forall>k<?n. w3 ! (4 * k + 3) = w2 ! (4 * k + 3)"
    using clarityPass_ok [OF w2(2)] by blast
  let ?out = "\<lparr>width = width bitmap, height = height bitmap,
               data = map (\<lambda>v. toUint8Clamp (clamp v 0 255)) w3\<rparr>"
  have e: "enhanceImageData bitmap adjustments = Some ?out"
    using w1(1) w2(1) w3(1) by (simp add: enhanceImageData_def)
  have alpha: "data ?out ! (4 * k + 3)
                 = toUint8Clamp (clamp (real (data bitmap ! (4 * k + 3))) 0 255)" if "k < ?n" for k
  proof -
    have "4 * k + 3 < 4 * ?n" using that by simp
    then show ?thesis
      using that w1(3) w2(3) w3(3) w3(2) assms by (simp add: clamp_clamp)
  qed
  show ?thesis
    using e alpha w3(2) assms by (simp add: toUint8Clamp_le)
qed

section \<open>The blur and the first loop in closed form\<close>

text \<open>
  The entries of the blurred buffer as means over the window, the bounds that follow,
  and the first loop under the all-zero adjustments with any exposure.
\<close>

lemma window_iff:
  "(xx, yy) \<in> window w h x y
     \<longleftrightarrow> xx < w \<and> yy < h \<and> \<bar>int xx - int x\<bar> \<le> 1 \<and> \<bar>int yy - int y\<bar> \<le> 1"
  by (auto simp: window_def nearby_def)

lemma finite_window: "finite (window w h x y)"
  by (simp add: window_def finite_nearby)

lemma centre_in_window: "x < w \<Longrightarrow> y < h \<Longrightarrow> (x, y) \<in> window w h x y"
  by (simp add: window_def nearby_self)



lemma boxBlur_entries:
  assumes "length source = 4 * (w * h)"
  shows "\<exists>result. boxBlur source w h = Some result \<and> length result = 4 * (w * h)
           \<and> (\<forall>x<w. \<forall>y<h. \<forall>c<4.
                 result ! (4 * (y * w + x) + c) = channelMean source w h x y c)"
proof -
  obtain result where r: "boxBlur source w h = Some result" "length result = 4 * (w * h)"
      "\<forall>x<w. \<forall>y<h. pixelAt result (y * w + x)
         = (channelMean source w h x y 0, channelMean source w h x y 1,
            channelMean source w h x y 2, channelMean source w h x y 3)"
    using boxBlur_pixels [OF assms] by blast
  have "result ! (4 * (y * w + x) + c) = channelMean source w h x y c"
    if "x < w" "y < h" "c < 4" for x y c
  proof -
    have p: "pixelAt result (y * w + x)
               = (channelMean source w h x y 0, channelMean source w h x y 1,
                  channelMean source w h x y 2, channelMean source w h x y 3)"
      using r(3) that by blast
    have "c = 0 \<or> c = 1 \<or> c = 2 \<or> c = 3" using that(3) by linarith
    then show ?thesis
      using p by (auto simp: pixelAt_def)
  qed
  then show ?thesis using r(1,2) by blast
qed

lemma mean_between:
  fixes f :: "'a \<Rightarrow> real"
  assumes "finite S" and "S \<noteq> {}" and "\<And>p. p \<in> S \<Longrightarrow> lo \<le> f p" and "\<And>p. p \<in> S \<Longrightarrow> f p \<le> hi"
  shows "lo \<le> sum f S / real (card S) \<and> sum f S / real (card S) \<le> hi"
proof -
  have c: "0 < real (card S)"
    using assms(1,2) by (simp add: card_gt_0_iff)
  have "real (card S) * lo \<le> sum f S"
    using sum_bounded_below [of S lo f] assms(3) by simp
  moreover have "sum f S \<le> real (card S) * hi"
    using sum_bounded_above [of S f hi] assms(4) by simp
  ultimately show ?thesis
    using c by (simp add: pos_le_divide_eq pos_divide_le_eq mult.commute)
qed

lemma window_entry_in_range:
  assumes "(xx, yy) \<in> window w h x y" and "c < 4"
  shows "(yy * w + xx) * 4 + c < 4 * (w * h)"
proof -
  have "xx < w" "yy < h" using assms(1) by (simp_all add: window_iff)
  then have "4 * (yy * w + xx) + 3 < 4 * (w * h)" by (rule pixel_in_range)
  then show ?thesis using assms(2) by simp
qed

lemma channelMean_between:
  assumes "x < w" and "y < h" and "c < 4"
    and "\<And>i. i < 4 * (w * h) \<Longrightarrow> lo \<le> source ! i \<and> source ! i \<le> hi"
  shows "lo \<le> channelMean source w h x y c \<and> channelMean source w h x y c \<le> hi"
  unfolding channelMean_def
proof (rule mean_between)
  show "finite (window w h x y)" by (rule finite_window)
  show "window w h x y \<noteq> {}" using centre_in_window [OF assms(1,2)] by blast
next
  fix p assume "p \<in> window w h x y"
  then have "(fst p, snd p) \<in> window w h x y" by simp
  then have "(snd p * w + fst p) * 4 + c < 4 * (w * h)"
    using assms(3) by (rule window_entry_in_range)
  then show "lo \<le> (case p of (xx, yy) \<Rightarrow> source ! ((yy * w + xx) * 4 + c))"
    using assms(4) by (simp add: case_prod_unfold)
next
  fix p assume "p \<in> window w h x y"
  then have "(fst p, snd p) \<in> window w h x y" by simp
  then have "(snd p * w + fst p) * 4 + c < 4 * (w * h)"
    using assms(3) by (rule window_entry_in_range)
  then show "(case p of (xx, yy) \<Rightarrow> source ! ((yy * w + xx) * 4 + c)) \<le> hi"
    using assms(4) by (simp add: case_prod_unfold)
qed

lemma channelMean_Min_Max:
  assumes "x < w" and "y < h"
  shows "Min ((\<lambda>(xx, yy). source ! ((yy * w + xx) * 4 + c)) ` window w h x y)
           \<le> channelMean source w h x y c
         \<and> channelMean source w h x y c
           \<le> Max ((\<lambda>(xx, yy). source ! ((yy * w + xx) * 4 + c)) ` window w h x y)"
  unfolding channelMean_def
proof (rule mean_between)
  show "finite (window w h x y)" by (rule finite_window)
  show "window w h x y \<noteq> {}" using centre_in_window [OF assms(1,2)] by blast
next
  fix p assume "p \<in> window w h x y"
  then show "Min ((\<lambda>(xx, yy). source ! ((yy * w + xx) * 4 + c)) ` window w h x y)
               \<le> (case p of (xx, yy) \<Rightarrow> source ! ((yy * w + xx) * 4 + c))"
    by (intro Min_le) (auto simp: finite_window)
next
  fix p assume "p \<in> window w h x y"
  then show "(case p of (xx, yy) \<Rightarrow> source ! ((yy * w + xx) * 4 + c))
               \<le> Max ((\<lambda>(xx, yy). source ! ((yy * w + xx) * 4 + c)) ` window w h x y)"
    by (intro Max_ge) (auto simp: finite_window)
qed

lemma entry_decompose:
  fixes i w h :: nat
  assumes "i < 4 * (w * h)"
  obtains x y c where "x < w" "y < h" "c < 4" "i = 4 * (y * w + x) + c"
proof -
  let ?k = "i div 4"
  have k: "?k < w * h" using assms by simp
  then have w: "0 < w" by (cases w) simp_all
  have "?k div w < h"
    using k w by (simp add: less_mult_imp_div_less mult.commute)
  moreover have "?k mod w < w" using w by simp
  moreover have "i mod 4 < 4" by simp
  moreover have "i = 4 * ((?k div w) * w + ?k mod w) + i mod 4" by simp
  ultimately show ?thesis using that by blast
qed

lemma boxBlur_range:
  assumes "length source = 4 * (w * h)"
    and "\<And>i. i < 4 * (w * h) \<Longrightarrow> lo \<le> source ! i \<and> source ! i \<le> hi"
  shows "\<exists>result. boxBlur source w h = Some result \<and> length result = 4 * (w * h)
           \<and> (\<forall>i<4 * (w * h). lo \<le> result ! i \<and> result ! i \<le> hi)"
proof -
  obtain result where r: "boxBlur source w h = Some result" "length result = 4 * (w * h)"
      "\<forall>x<w. \<forall>y<h. \<forall>c<4. result ! (4 * (y * w + x) + c) = channelMean source w h x y c"
    using boxBlur_entries [OF assms(1)] by blast
  have "lo \<le> result ! i \<and> result ! i \<le> hi" if i: "i < 4 * (w * h)" for i
  proof -
    obtain x y c where d: "x < w" "y < h" "c < 4" "i = 4 * (y * w + x) + c"
      using i by (rule entry_decompose)
    have "result ! i = channelMean source w h x y c"
      using r(3) d by blast
    then show ?thesis
      using channelMean_between [OF d(1,2,3) assms(2)] by simp
  qed
  then show ?thesis using r(1,2) by blast
qed

lemma lerp_between:
  assumes "0 \<le> m" and "m \<le> 1" and "lo \<le> a" and "a \<le> hi" and "lo \<le> b" and "b \<le> hi"
  shows "lo \<le> lerp a b m \<and> lerp a b m \<le> hi"
proof -
  have e: "lerp a b m = (1 - m) * a + m * b"
    by (simp add: lerp_def algebra_simps)
  have "(1 - m) * lo \<le> (1 - m) * a" and "m * lo \<le> m * b"
    using assms by (simp_all add: mult_left_mono)
  then have l: "(1 - m) * lo + m * lo \<le> (1 - m) * a + m * b" by linarith
  have "(1 - m) * a \<le> (1 - m) * hi" and "m * b \<le> m * hi"
    using assms by (simp_all add: mult_left_mono)
  then have u: "(1 - m) * a + m * b \<le> (1 - m) * hi + m * hi" by linarith
  have "(1 - m) * lo + m * lo = lo" and "(1 - m) * hi + m * hi = hi"
    by (simp_all add: algebra_simps)
  then show ?thesis using l u e by simp
qed

lemma entries_from_pixels:
  assumes "length v = 4 * n"
    and "\<And>k. k < n \<Longrightarrow> P (v ! (4 * k)) \<and> P (v ! (4 * k + 1)) \<and> P (v ! (4 * k + 2)) \<and> P (v ! (4 * k + 3))"
    and "i < 4 * n"
  shows "P (v ! i)"
proof -
  have k: "i div 4 < n" using assms(3) by simp
  have "i mod 4 = 0 \<or> i mod 4 = 1 \<or> i mod 4 = 2 \<or> i mod 4 = 3" by linarith
  moreover have "i = 4 * (i div 4) + i mod 4" by simp
  ultimately have "i = 4 * (i div 4) \<or> i = 4 * (i div 4) + 1 \<or> i = 4 * (i div 4) + 2
      \<or> i = 4 * (i div 4) + 3"
    by presburger
  then show ?thesis
    using assms(2) [OF k] by metis
qed

lemma denoisePass_range:
  assumes "length v = 4 * (w * h)"
    and "\<And>i. i < 4 * (w * h) \<Longrightarrow> 0 \<le> v ! i \<and> v ! i \<le> 255"
  shows "\<exists>mixed. denoisePass adjustments w h v = Some mixed \<and> length mixed = 4 * (w * h)
           \<and> (\<forall>i<4 * (w * h). 0 \<le> mixed ! i \<and> mixed ! i \<le> 255)"
proof (cases "denoise adjustments > 0")
  case False
  then show ?thesis using assms by (simp add: denoisePass_def)
next
  case True
  let ?m = "min 0.85 (denoise adjustments / 100)"
  have m: "0 \<le> ?m" "?m \<le> 1" using True by simp_all
  obtain blurred where b: "boxBlur v w h = Some blurred" "length blurred = 4 * (w * h)"
      "\<forall>i<4 * (w * h). 0 \<le> blurred ! i \<and> blurred ! i \<le> 255"
    using boxBlur_range [OF assms(1), of 0 255] assms(2) by blast
  obtain mixed where v': "forLoop (pixelOffsets (length v)) (denoisePixel blurred ?m) v = Some mixed"
      "length mixed = 4 * (w * h)"
      "\<forall>k<w * h. pixelAt mixed k = denoisedPixel ?m (pixelAt blurred k) (pixelAt v k)"
    using denoiseLoop [OF assms(1) b(2)] by blast
  have "0 \<le> mixed ! i \<and> mixed ! i \<le> 255" if i: "i < 4 * (w * h)" for i
  proof (rule entries_from_pixels [OF v'(2) _ i])
    fix k assume k: "k < w * h"
    have p: "pixelAt mixed k = denoisedPixel ?m (pixelAt blurred k) (pixelAt v k)"
      using v'(3) k by blast
    have r: "0 \<le> v ! j \<and> v ! j \<le> 255 \<and> 0 \<le> blurred ! j \<and> blurred ! j \<le> 255"
      if "j \<le> 4 * k + 3" for j
      using that k assms(2) [of j] b(3) by simp
    have "mixed ! (4 * k) = lerp (v ! (4 * k)) (blurred ! (4 * k)) ?m"
      and "mixed ! (4 * k + 1) = lerp (v ! (4 * k + 1)) (blurred ! (4 * k + 1)) ?m"
      and "mixed ! (4 * k + 2) = lerp (v ! (4 * k + 2)) (blurred ! (4 * k + 2)) ?m"
      and "mixed ! (4 * k + 3) = v ! (4 * k + 3)"
      using p by (simp_all add: pixelAt_def denoisedPixel_def)
    then show "(0 \<le> mixed ! (4 * k) \<and> mixed ! (4 * k) \<le> 255)
        \<and> (0 \<le> mixed ! (4 * k + 1) \<and> mixed ! (4 * k + 1) \<le> 255)
        \<and> (0 \<le> mixed ! (4 * k + 2) \<and> mixed ! (4 * k + 2) \<le> 255)
        \<and> (0 \<le> mixed ! (4 * k + 3) \<and> mixed ! (4 * k + 3) \<le> 255)"
      using lerp_between [OF m, of 0 "v ! (4 * k)" 255 "blurred ! (4 * k)"]
        lerp_between [OF m, of 0 "v ! (4 * k + 1)" 255 "blurred ! (4 * k + 1)"]
        lerp_between [OF m, of 0 "v ! (4 * k + 2)" 255 "blurred ! (4 * k + 2)"]
        r [of "4 * k"] r [of "4 * k + 1"] r [of "4 * k + 2"] r [of "4 * k + 3"]
      by simp
  qed
  then show ?thesis
    using True b(1) v'(1,2) by (simp add: denoisePass_def)
qed

lemma storePixel_same: "storePixel k (pixelAt v k) v = v"
  by (simp add: storePixel_def pixelAt_def)

lemma neutral_constants:
  "exposureOffset CLEAN_SLATE_ADJUSTMENTS = 0" "contrastFactor CLEAN_SLATE_ADJUSTMENTS = 1"
  by (simp_all add: exposureOffset_def contrastFactor_def contrastDivisor_def clamp_def
      CLEAN_SLATE_ADJUSTMENTS_def)

lemma neutral_ops:
  "adjustSaturation r g b (saturation CLEAN_SLATE_ADJUSTMENTS / 100)
     (vibrance CLEAN_SLATE_ADJUSTMENTS / 100) = (r, g, b)"
  "removeSepia r g b (sepiaReduction CLEAN_SLATE_ADJUSTMENTS / 100 * 100) = (r, g, b)"
  "applyWarmth r g b (warmth CLEAN_SLATE_ADJUSTMENTS) = (r, g, b)"
  "applyShadowHighlight r g b (shadowLift CLEAN_SLATE_ADJUSTMENTS)
     (highlightRecovery CLEAN_SLATE_ADJUSTMENTS) = (r, g, b)"
  by (simp_all add: adjustSaturation_def removeSepia_def applyWarmth_def
      applyShadowHighlight_def CLEAN_SLATE_ADJUSTMENTS_def)

lemma exposure_only_constants:
  "exposureOffset (CLEAN_SLATE_ADJUSTMENTS\<lparr>exposure := e\<rparr>) = e * 2.2"
  "contrastFactor (CLEAN_SLATE_ADJUSTMENTS\<lparr>exposure := e\<rparr>) = 1"
  by (simp_all add: exposureOffset_def contrastFactor_def contrastDivisor_def clamp_def
      CLEAN_SLATE_ADJUSTMENTS_def)

lemma gradeChannels_exposure_only:
  "gradeChannels (CLEAN_SLATE_ADJUSTMENTS\<lparr>exposure := e\<rparr>) r g b
     = (clamp (r + e * 2.2) 0 255, clamp (g + e * 2.2) 0 255, clamp (b + e * 2.2) 0 255)"
proof -
  have ops: "adjustSaturation r' g' b' (saturation (CLEAN_SLATE_ADJUSTMENTS\<lparr>exposure := e\<rparr>) / 100)
       (vibrance (CLEAN_SLATE_ADJUSTMENTS\<lparr>exposure := e\<rparr>) / 100) = (r', g', b')"
    "removeSepia r' g' b' (sepiaReduction (CLEAN_SLATE_ADJUSTMENTS\<lparr>exposure := e\<rparr>) / 100 * 100)
       = (r', g', b')"
    "applyWarmth r' g' b' (warmth (CLEAN_SLATE_ADJUSTMENTS\<lparr>exposure := e\<rparr>)) = (r', g', b')"
    "applyShadowHighlight r' g' b' (shadowLift (CLEAN_SLATE_ADJUSTMENTS\<lparr>exposure := e\<rparr>))
       (highlightRecovery (CLEAN_SLATE_ADJUSTMENTS\<lparr>exposure := e\<rparr>)) = (r', g', b')"
    for r' g' b'
    using neutral_ops [of r' g' b'] by (simp_all add: CLEAN_SLATE_ADJUSTMENTS_def)
  show ?thesis
    unfolding gradeChannels_def Let_def exposure_only_constants ops
    by (simp add: clamp_clamp)
qed

lemma gradedPixel_exposure_only:
  "gradedPixel (CLEAN_SLATE_ADJUSTMENTS\<lparr>exposure := e\<rparr>) (r, g, b, a)
     = (clamp (r + e * 2.2) 0 255, clamp (g + e * 2.2) 0 255, clamp (b + e * 2.2) 0 255,
        clamp a 0 255)"
  by (simp add: gradedPixel_def gradeChannels_exposure_only clamp_clamp)

lemma exposure_zero: "CLEAN_SLATE_ADJUSTMENTS\<lparr>exposure := 0\<rparr> = CLEAN_SLATE_ADJUSTMENTS"
  by (simp add: CLEAN_SLATE_ADJUSTMENTS_def)

lemma skipped_passes:
  assumes "denoise adjustments \<le> 0" and "clarity adjustments \<le> 0"
  shows "denoisePass adjustments w h v = Some v" and "clarityPass adjustments w h v = Some v"
  using assms by (simp_all add: denoisePass_def clarityPass_def)


lemma neutral_passes:
  "denoisePass CLEAN_SLATE_ADJUSTMENTS w h v = Some v"
  "clarityPass CLEAN_SLATE_ADJUSTMENTS w h v = Some v"
  by (rule skipped_passes; simp add: CLEAN_SLATE_ADJUSTMENTS_def)+

lemma gradePixel_neutral:
  assumes "4 * k + 3 < length v" and "\<And>i. i < length v \<Longrightarrow> 0 \<le> v ! i \<and> v ! i \<le> 255"
  shows "gradePixel CLEAN_SLATE_ADJUSTMENTS (4 * k) v = Some v"
proof -
  have r: "0 \<le> v ! j \<and> v ! j \<le> 255" if "j \<le> 4 * k + 3" for j
    using that assms by simp
  have "gradedPixel (CLEAN_SLATE_ADJUSTMENTS\<lparr>exposure := 0\<rparr>) (pixelAt v k) = pixelAt v k"
    unfolding pixelAt_def gradedPixel_exposure_only
    using r [of "4 * k"] r [of "4 * k + 1"] r [of "4 * k + 2"] r [of "4 * k + 3"]
    by (simp add: clamp_id)
  then show ?thesis
    using assms(1) by (simp add: gradePixel_step exposure_zero storePixel_same)
qed

section \<open>The claims\<close>

subsection \<open>C1: shape and fresh buffer\<close>

text \<open>
  Claim C1. For every bitmap whose pixel buffer has length \<open>width * height * 4\<close> and every
  adjustments record, \<open>enhanceImageData\<close> returns a bitmap of the same width and height
  whose buffer has the same length. That buffer sits at a newly allocated address: it is
  not the address of the source's buffer, it was not allocated before the call, and the
  source's buffer is unchanged after it.
\<close>

theorem restore_shape_fresh_buffer:
  assumes "readAt heap (refData bitmap) = Some bytes"
    and "length bytes = refWidth bitmap * refHeight bitmap * 4"
  shows "\<exists>heap' out bytes'.
           enhanceImageDataOnHeap heap bitmap adjustments = Some (heap', out)
           \<and> refWidth out = refWidth bitmap \<and> refHeight out = refHeight bitmap
           \<and> readAt heap' (refData out) = Some bytes' \<and> length bytes' = length bytes
           \<and> refData out \<noteq> refData bitmap
           \<and> readAt heap (refData out) = None
           \<and> readAt heap' (refData bitmap) = Some bytes"
proof -
  let ?b = "\<lparr>width = refWidth bitmap, height = refHeight bitmap, data = bytes\<rparr>"
  have "length (data ?b) = 4 * (width ?b * height ?b)"
    using assms(2) by simp
  then obtain out where out: "enhanceImageData ?b adjustments = Some out"
      "width out = refWidth bitmap" "height out = refHeight bitmap"
      "length (data out) = length bytes"
    using enhanceImageData_ok [of ?b adjustments] by auto
  have inb: "refData bitmap < length heap" and b: "heap ! refData bitmap = bytes"
    using assms(1) by (auto simp: readAt_def split: if_splits)
  have "enhanceImageDataOnHeap heap bitmap adjustments
          = Some (heap @ [data out],
                  \<lparr>refWidth = width out, refHeight = height out, refData = length heap\<rparr>)"
    by (simp add: enhanceImageDataOnHeap_def assms(1) out(1) allocate_def)
  then show ?thesis
    using out(2,3,4) inb b by (simp add: readAt_def nth_append)
qed

text \<open>
  The theorem at a one-pixel bitmap stored at address 0, with the default adjustments.
\<close>

theorem restore_shape_fresh_buffer_witness:
  "readAt [[9, 8, 7, 255 :: nat]] 0 = Some [9, 8, 7, 255]
   \<and> length [9, 8, 7, 255 :: nat] = 1 * 1 * 4
   \<and> (\<exists>heap' out bytes'.
         enhanceImageDataOnHeap [[9, 8, 7, 255]] \<lparr>refWidth = 1, refHeight = 1, refData = 0\<rparr>
             DEFAULT_ADJUSTMENTS = Some (heap', out)
         \<and> refWidth out = 1 \<and> refHeight out = 1
         \<and> readAt heap' (refData out) = Some bytes'
         \<and> length bytes' = length [9, 8, 7, 255 :: nat]
         \<and> refData out \<noteq> 0
         \<and> readAt [[9, 8, 7, 255 :: nat]] (refData out) = None
         \<and> readAt heap' 0 = Some [9, 8, 7, 255])"
proof -
  have h: "readAt [[9, 8, 7, 255 :: nat]] 0 = Some [9, 8, 7, 255]"
    by (simp add: readAt_def)
  show ?thesis
    using h restore_shape_fresh_buffer [of "[[9, 8, 7, 255]]"
      "\<lparr>refWidth = 1, refHeight = 1, refData = 0\<rparr>" "[9, 8, 7, 255]" DEFAULT_ADJUSTMENTS]
    by simp
qed

subsection \<open>C2: the all-zero adjustments change nothing\<close>

text \<open>
  Claim C2. For every bitmap of the right shape whose channel values are at most 255,
  \<open>enhanceImageData\<close> with \<open>CLEAN_SLATE_ADJUSTMENTS\<close> returns the bitmap it was given. On the
  way: the exposure offset is 0, the contrast factor is exactly 1, each scalar colour
  operation takes its identity branch on the parameters the pipeline passes it, the
  denoise and clarity passes return the buffer untouched, and the final clamp and
  quantisation is the identity on every integer from 0 to 255.
\<close>

theorem neutral_adjustments_change_nothing:
  assumes "length (data bitmap) = width bitmap * height bitmap * 4"
    and "\<forall>v\<in>set (data bitmap). v \<le> 255"
  shows "enhanceImageData bitmap CLEAN_SLATE_ADJUSTMENTS = Some bitmap
         \<and> exposureOffset CLEAN_SLATE_ADJUSTMENTS = 0
         \<and> contrastFactor CLEAN_SLATE_ADJUSTMENTS = 1
         \<and> adjustSaturation r g b (saturation CLEAN_SLATE_ADJUSTMENTS / 100)
              (vibrance CLEAN_SLATE_ADJUSTMENTS / 100) = (r, g, b)
         \<and> removeSepia r g b (sepiaReduction CLEAN_SLATE_ADJUSTMENTS / 100 * 100) = (r, g, b)
         \<and> applyWarmth r g b (warmth CLEAN_SLATE_ADJUSTMENTS) = (r, g, b)
         \<and> applyShadowHighlight r g b (shadowLift CLEAN_SLATE_ADJUSTMENTS)
              (highlightRecovery CLEAN_SLATE_ADJUSTMENTS) = (r, g, b)
         \<and> denoisePass CLEAN_SLATE_ADJUSTMENTS w h working = Some working
         \<and> clarityPass CLEAN_SLATE_ADJUSTMENTS w h working = Some working
         \<and> (\<forall>n\<le>255. toUint8Clamp (clamp (real n) 0 255) = n)"
proof -
  let ?n = "width bitmap * height bitmap"
  let ?w0 = "map real (data bitmap)"
  have len: "length ?w0 = 4 * ?n" using assms(1) by simp
  have byte: "data bitmap ! i \<le> 255" if "i < length (data bitmap)" for i
    using assms(2) that nth_mem by blast
  have rng: "0 \<le> ?w0 ! i \<and> ?w0 ! i \<le> 255" if "i < length ?w0" for i
    using that byte [of i] by simp
  have "forLoop (pixelOffsets (length ?w0)) (gradePixel CLEAN_SLATE_ADJUSTMENTS) ?w0 = Some ?w0"
  proof (rule forLoop_unchanged)
    have "pixelOffsets (length ?w0) = map (\<lambda>k. 4 * k) [0..<?n]"
      unfolding len by (rule pixelOffsets_4)
    moreover fix i assume "i \<in> set (pixelOffsets (length ?w0))"
    ultimately obtain k where k: "k < ?n" "i = 4 * k"
      by auto
    then have "4 * k + 3 < length ?w0" using len by simp
    then show "gradePixel CLEAN_SLATE_ADJUSTMENTS i ?w0 = Some ?w0"
      unfolding k(2) using rng by (rule gradePixel_neutral)
  qed
  then have "enhanceImageData bitmap CLEAN_SLATE_ADJUSTMENTS
               = Some \<lparr>width = width bitmap, height = height bitmap,
                       data = map (\<lambda>v. toUint8Clamp (clamp v 0 255)) ?w0\<rparr>"
    by (simp add: enhanceImageData_def neutral_passes)
  moreover have "map (\<lambda>v. toUint8Clamp (clamp v 0 255)) ?w0 = data bitmap"
    using assms(2) by (simp add: map_idI quantize_byte)
  ultimately have "enhanceImageData bitmap CLEAN_SLATE_ADJUSTMENTS = Some bitmap"
    by simp
  then show ?thesis
    using neutral_constants neutral_ops [of r g b] neutral_passes [of w h working]
    by (simp add: quantize_byte)
qed

text \<open>
  The theorem at the 2\<times>1 bitmap \<open>[(10,10,10,255), (250,250,250,255)]\<close>.
\<close>

theorem neutral_adjustments_change_nothing_witness:
  "length (data \<lparr>width = 2, height = 1, data = [10, 10, 10, 255, 250, 250, 250, 255]\<rparr>) = 2 * 1 * 4
   \<and> enhanceImageData \<lparr>width = 2, height = 1, data = [10, 10, 10, 255, 250, 250, 250, 255]\<rparr>
         CLEAN_SLATE_ADJUSTMENTS
       = Some \<lparr>width = 2, height = 1, data = [10, 10, 10, 255, 250, 250, 250, 255]\<rparr>
   \<and> exposureOffset CLEAN_SLATE_ADJUSTMENTS = 0
   \<and> contrastFactor CLEAN_SLATE_ADJUSTMENTS = 1"
  using neutral_adjustments_change_nothing
    [of "\<lparr>width = 2, height = 1, data = [10, 10, 10, 255, 250, 250, 250, 255]\<rparr>"]
  by simp

subsection \<open>C3: the range of the scalar colour operations\<close>

text \<open>
  \<open>adjustSaturation\<close>, \<open>applyWarmth\<close> and \<open>applyShadowHighlight\<close> return their arguments
  or clamp each channel they return, so they map \<open>[0, 255]\<close> into \<open>[0, 255]\<close>.
\<close>

lemma sibling_ops_stay_in_range:
  assumes "0 \<le> r" "r \<le> 255" "0 \<le> g" "g \<le> 255" "0 \<le> b" "b \<le> 255"
  shows "adjustSaturation r g b amount vib = (r', g', b')
           \<Longrightarrow> 0 \<le> r' \<and> r' \<le> 255 \<and> 0 \<le> g' \<and> g' \<le> 255 \<and> 0 \<le> b' \<and> b' \<le> 255"
    and "applyWarmth r g b w = (r', g', b')
           \<Longrightarrow> 0 \<le> r' \<and> r' \<le> 255 \<and> 0 \<le> g' \<and> g' \<le> 255 \<and> 0 \<le> b' \<and> b' \<le> 255"
    and "applyShadowHighlight r g b lift recovery = (r', g', b')
           \<Longrightarrow> 0 \<le> r' \<and> r' \<le> 255 \<and> 0 \<le> g' \<and> g' \<le> 255 \<and> 0 \<le> b' \<and> b' \<le> 255"
  using assms
  by (auto simp: adjustSaturation_def applyWarmth_def applyShadowHighlight_def Let_def
      clamp_bounds split: if_splits)

text \<open>
  Claim C3 says the same of every scalar colour operation, \<open>removeSepia\<close> in particular,
  for every amount above zero. \<open>removeSepia\<close> clamps the three cooled channels and then
  returns \<open>lerp\<close> of the gray value and each of them, unclamped; the weight \<open>1.1\<close> of the
  blue channel extrapolates. On the pixel \<open>(0, 0, 255)\<close> with amount \<open>1\<close> the blue channel
  comes out as \<open>278.6589\<close>, above \<open>255\<close>; the pipeline reaches this call with
  \<open>sepiaReduction = 1\<close> and every other parameter zero.
\<close>

theorem removeSepia_leaves_range:
  "removeSepia 0 0 255 1 = (18411 / 4000, 55233 / 20000, 2786589 / 10000)
   \<and> 255 < snd (snd (removeSepia 0 0 255 1))
   \<and> gradeChannels (CLEAN_SLATE_ADJUSTMENTS\<lparr>sepiaReduction := 1\<rparr>) 0 0 255
       = removeSepia 0 0 255 1"
  by (simp add: removeSepia_def gradeChannels_def luminance_def clamp_def lerp_def
      CLEAN_SLATE_ADJUSTMENTS_def exposureOffset_def contrastFactor_def contrastDivisor_def
      adjustSaturation_def applyWarmth_def applyShadowHighlight_def)

subsection \<open>C4: the blur is the mean over the in-bounds window\<close>



subsection \<open>C5: the contrast step never divides by zero\<close>

text \<open>
  Claim C5. For every contrast value the contrast step first clamps the parameter to
  \<open>[-80, 120]\<close>; the divisor of the factor is then \<open>255 * (259 - C)\<close>, which is never zero
  (the clamp keeps \<open>259 - C\<close> at 139 or more, so the \<open>0.0001\<close> substitute is never taken), and
  the factor is \<open>259 * (C + 255) / (255 * (259 - C))\<close>. Every channel leaves the step in
  \<open>[0, 255]\<close>, and on every bitmap of the right shape \<open>enhanceImageData\<close> returns a bitmap
  whose entries are all at most 255.
\<close>

theorem contrast_divisor_never_zero:
  assumes "length (data bitmap) = width bitmap * height bitmap * 4"
  shows "- 80 \<le> clamp (contrast adjustments) (- 80) 120
         \<and> clamp (contrast adjustments) (- 80) 120 \<le> 120
         \<and> contrastDivisor adjustments = 255 * (259 - clamp (contrast adjustments) (- 80) 120)
         \<and> contrastDivisor adjustments \<noteq> 0
         \<and> contrastFactor adjustments
             = 259 * (clamp (contrast adjustments) (- 80) 120 + 255)
               / (255 * (259 - clamp (contrast adjustments) (- 80) 120))
         \<and> 0 \<le> clamp (contrastFactor adjustments * (v - 128) + 128) 0 255
         \<and> clamp (contrastFactor adjustments * (v - 128) + 128) 0 255 \<le> 255
         \<and> (\<exists>out. enhanceImageData bitmap adjustments = Some out
               \<and> (\<forall>i<length (data out). data out ! i \<le> 255))"
proof -
  let ?c = "clamp (contrast adjustments) (- 80) 120"
  have c: "- 80 \<le> ?c" "?c \<le> 120"
    by (simp_all add: clamp_def)
  then have nz: "259 - ?c \<noteq> 0" by linarith
  have d: "contrastDivisor adjustments = 255 * (259 - ?c)"
    using nz by (simp add: contrastDivisor_def Let_def)
  have f: "contrastFactor adjustments = 259 * (?c + 255) / (255 * (259 - ?c))"
    by (simp add: contrastFactor_def Let_def d)
  have len: "length (data bitmap) = 4 * (width bitmap * height bitmap)"
    using assms by simp
  show ?thesis
    using c nz d f enhanceImageData_ok [OF len, of adjustments]
    by (auto simp: clamp_bounds)
qed

text \<open>
  The theorem at \<open>contrast = 259\<close>: the parameter is clamped to 120, the divisor is
  \<open>255 * 139\<close>.
\<close>

theorem contrast_divisor_never_zero_witness:
  "length (data \<lparr>width = 1, height = 1, data = [200, 100, 50, 255]\<rparr>) = 1 * 1 * 4
   \<and> clamp 259 (- 80) 120 = 120
   \<and> contrastDivisor (CLEAN_SLATE_ADJUSTMENTS\<lparr>contrast := 259\<rparr>) = 255 * 139
   \<and> contrastFactor (CLEAN_SLATE_ADJUSTMENTS\<lparr>contrast := 259\<rparr>) = 259 * 375 / (255 * 139)
   \<and> (\<exists>out. enhanceImageData \<lparr>width = 1, height = 1, data = [200, 100, 50, 255]\<rparr>
               (CLEAN_SLATE_ADJUSTMENTS\<lparr>contrast := 259\<rparr>) = Some out
          \<and> (\<forall>i<length (data out). data out ! i \<le> 255))"
  using contrast_divisor_never_zero [of "\<lparr>width = 1, height = 1, data = [200, 100, 50, 255]\<rparr>"
      "CLEAN_SLATE_ADJUSTMENTS\<lparr>contrast := 259\<rparr>" 0]
  by (simp add: CLEAN_SLATE_ADJUSTMENTS_def clamp_def)

subsection \<open>C6: the double scaling of sepiaReduction\<close>

text \<open>
  Claim C6 compares \<open>(sepiaReduction / 100) * 100\<close> with \<open>sepiaReduction\<close>. Over the reals
  of this embedding the two are the same term after simplification, so the comparison
  says nothing here; in the source both operations round to a double, and whether the
  round trip returns its argument is a property of that rounding. No theorem is given.
\<close>

subsection \<open>C7: the blur passes are skipped as whole branches\<close>

text \<open>
  Claim C7. For every bitmap (of any shape) and every adjustments record with
  \<open>denoise \<le> 0\<close> and \<open>clarity \<le> 0\<close>, each of the two passes returns the working buffer it
  was given, and \<open>enhanceImageData\<close> returns exactly what the pipeline without steps 9 and
  10 returns. The equality holds for buffers on which \<open>boxBlur\<close> would read out of range
  as well: the blur is not run.
\<close>

theorem blur_passes_skipped:
  assumes "denoise adjustments \<le> 0" and "clarity adjustments \<le> 0"
  shows "denoisePass adjustments w h working = Some working
         \<and> clarityPass adjustments w h working = Some working
         \<and> enhanceImageData bitmap adjustments = restoreOmittingSteps9And10 bitmap adjustments"
proof -
  have d: "denoisePass adjustments w h v = Some v" for w h v
    using assms(1) by (simp add: denoisePass_def)
  have c: "clarityPass adjustments w h v = Some v" for w h v
    using assms(2) by (simp add: clarityPass_def)
  show ?thesis
    by (simp add: d c enhanceImageData_def restoreOmittingSteps9And10_def
        split: Option.bind_split)
qed

text \<open>
  The theorem at \<open>denoise = 0\<close> and \<open>clarity = -3\<close>, the other parameters at their defaults.
\<close>

theorem blur_passes_skipped_witness:
  "denoise (DEFAULT_ADJUSTMENTS\<lparr>denoise := 0, clarity := - 3\<rparr>) \<le> 0
   \<and> clarity (DEFAULT_ADJUSTMENTS\<lparr>denoise := 0, clarity := - 3\<rparr>) \<le> 0
   \<and> denoisePass (DEFAULT_ADJUSTMENTS\<lparr>denoise := 0, clarity := - 3\<rparr>) 1 1 [9, 8, 7, 255]
       = Some [9, 8, 7, 255]
   \<and> clarityPass (DEFAULT_ADJUSTMENTS\<lparr>denoise := 0, clarity := - 3\<rparr>) 1 1 [9, 8, 7, 255]
       = Some [9, 8, 7, 255]
   \<and> enhanceImageData \<lparr>width = 1, height = 1, data = [9, 8, 7, 255]\<rparr>
         (DEFAULT_ADJUSTMENTS\<lparr>denoise := 0, clarity := - 3\<rparr>)
       = restoreOmittingSteps9And10 \<lparr>width = 1, height = 1, data = [9, 8, 7, 255]\<rparr>
           (DEFAULT_ADJUSTMENTS\<lparr>denoise := 0, clarity := - 3\<rparr>)"
  using blur_passes_skipped [of "DEFAULT_ADJUSTMENTS\<lparr>denoise := 0, clarity := - 3\<rparr>"
      1 1 "[9, 8, 7, 255]" "\<lparr>width = 1, height = 1, data = [9, 8, 7, 255]\<rparr>"]
  by simp

subsection \<open>C8: exposure alone\<close>



subsection \<open>C9: alpha is preserved\<close>

text \<open>
  Claim C9. For every bitmap of the right shape whose channel values are at most 255 and
  every adjustments record, \<open>enhanceImageData\<close> returns a bitmap in which the alpha channel
  of every pixel is the alpha channel of that pixel in the source.
\<close>

theorem alpha_preserved:
  assumes "length (data bitmap) = width bitmap * height bitmap * 4"
    and "\<forall>v\<in>set (data bitmap). v \<le> 255"
  shows "(\<exists>out. enhanceImageData bitmap adjustments = Some out
           \<and> length (data out) = length (data bitmap)
           \<and> (\<forall>k<width bitmap * height bitmap.
                 data out ! (k * 4 + 3) = data bitmap ! (k * 4 + 3)))
         \<and> (\<forall>working. length working = length (data bitmap) \<longrightarrow>
               (\<exists>mixed. denoisePass adjustments (width bitmap) (height bitmap) working = Some mixed
                  \<and> (\<forall>k<width bitmap * height bitmap.
                        mixed ! (k * 4 + 3) = working ! (k * 4 + 3)))
               \<and> (\<exists>sharpened.
                     clarityPass adjustments (width bitmap) (height bitmap) working = Some sharpened
                     \<and> (\<forall>k<width bitmap * height bitmap.
                           sharpened ! (k * 4 + 3) = working ! (k * 4 + 3))))"
proof -
  have len: "length (data bitmap) = 4 * (width bitmap * height bitmap)"
    using assms(1) by simp
  have passes: "(\<exists>mixed. denoisePass adjustments (width bitmap) (height bitmap) working = Some mixed
                  \<and> (\<forall>k<width bitmap * height bitmap.
                        mixed ! (k * 4 + 3) = working ! (k * 4 + 3)))
               \<and> (\<exists>sharpened.
                     clarityPass adjustments (width bitmap) (height bitmap) working = Some sharpened
                     \<and> (\<forall>k<width bitmap * height bitmap.
                           sharpened ! (k * 4 + 3) = working ! (k * 4 + 3)))"
    if "length working = length (data bitmap)" for working
  proof -
    have l: "length working = 4 * (width bitmap * height bitmap)"
      using that len by simp
    show ?thesis
      using denoisePass_ok [OF l, of adjustments] clarityPass_ok [OF l, of adjustments]
      by (auto simp: mult.commute)
  qed
  obtain out where out: "enhanceImageData bitmap adjustments = Some out"
      "length (data out) = length (data bitmap)"
      "\<forall>k<width bitmap * height bitmap.
         data out ! (4 * k + 3) = toUint8Clamp (clamp (real (data bitmap ! (4 * k + 3))) 0 255)"
    using enhanceImageData_ok [OF len, of adjustments] by blast
  have "data out ! (k * 4 + 3) = data bitmap ! (k * 4 + 3)"
    if "k < width bitmap * height bitmap" for k
  proof -
    have "4 * k + 3 < length (data bitmap)" using that len by simp
    then have "data bitmap ! (4 * k + 3) \<le> 255"
      using assms(2) nth_mem by blast
    then show ?thesis
      using out(3) that by (simp add: quantize_byte mult.commute)
  qed
  then show ?thesis using out(1,2) passes by blast
qed

text \<open>
  The theorem at a 2\<times>1 bitmap with the default adjustments, under which both blur passes
  run.
\<close>

theorem alpha_preserved_witness:
  "length (data \<lparr>width = 2, height = 1, data = [10, 20, 30, 40, 50, 60, 70, 80]\<rparr>) = 2 * 1 * 4
   \<and> (\<exists>out. enhanceImageData \<lparr>width = 2, height = 1, data = [10, 20, 30, 40, 50, 60, 70, 80]\<rparr>
               DEFAULT_ADJUSTMENTS = Some out
          \<and> data out ! 3 = 40 \<and> data out ! 7 = 80)"
proof -
  let ?b = "\<lparr>width = 2, height = 1, data = [10, 20, 30, 40, 50, 60, 70, 80]\<rparr>"
  have "\<exists>out. enhanceImageData ?b DEFAULT_ADJUSTMENTS = Some out
           \<and> length (data out) = length (data ?b)
           \<and> (\<forall>k<width ?b * height ?b. data out ! (k * 4 + 3) = data ?b ! (k * 4 + 3))"
    by (rule alpha_preserved [THEN conjunct1]) simp_all
  then obtain out where out: "enhanceImageData ?b DEFAULT_ADJUSTMENTS = Some out"
      "\<forall>k<width ?b * height ?b. data out ! (k * 4 + 3) = data ?b ! (k * 4 + 3)"
    by blast
  have "data out ! 3 = 40 \<and> data out ! 7 = 80"
    using out(2) [rule_format, of 0] out(2) [rule_format, of 1] by simp
  then show ?thesis using out(1) by simp
qed

subsection \<open>C10: the blur stays within the values it averages\<close>

text \<open>
  Claim C10. For every buffer of length \<open>w * h * 4\<close>, \<open>boxBlur\<close> returns a buffer in which
  the entry of every pixel and channel lies between the least and the greatest value of
  that channel over the pixel's window. Hence it returns a constant buffer unchanged,
  and it maps a buffer with all values in \<open>[0, 255]\<close> to one with all values in
  \<open>[0, 255]\<close>; on such a buffer the denoise pass, which mixes without clamping, also
  returns values in \<open>[0, 255]\<close>.
\<close>

theorem boxBlur_within_window_bounds:
  assumes "length source = w * h * 4"
  shows "\<exists>result. boxBlur source w h = Some result
           \<and> (\<forall>x<w. \<forall>y<h. \<forall>c<4.
                 Min ((\<lambda>(xx, yy). source ! ((yy * w + xx) * 4 + c)) ` window w h x y)
                   \<le> result ! ((y * w + x) * 4 + c)
                 \<and> result ! ((y * w + x) * 4 + c)
                   \<le> Max ((\<lambda>(xx, yy). source ! ((yy * w + xx) * 4 + c)) ` window w h x y))
           \<and> ((\<forall>i<length source. source ! i = v) \<longrightarrow> result = source)
           \<and> ((\<forall>i<length source. 0 \<le> source ! i \<and> source ! i \<le> 255) \<longrightarrow>
                 (\<forall>i<length result. 0 \<le> result ! i \<and> result ! i \<le> 255)
                 \<and> (\<exists>mixed. denoisePass adjustments w h source = Some mixed
                       \<and> (\<forall>i<length mixed. 0 \<le> mixed ! i \<and> mixed ! i \<le> 255)))"
proof -
  have len: "length source = 4 * (w * h)" using assms(1) by simp
  obtain result where r: "boxBlur source w h = Some result" "length result = 4 * (w * h)"
      "\<forall>x<w. \<forall>y<h. \<forall>c<4. result ! (4 * (y * w + x) + c) = channelMean source w h x y c"
    using boxBlur_entries [OF len] by blast
  have a: "Min ((\<lambda>(xx, yy). source ! ((yy * w + xx) * 4 + c)) ` window w h x y)
             \<le> result ! ((y * w + x) * 4 + c)
           \<and> result ! ((y * w + x) * 4 + c)
             \<le> Max ((\<lambda>(xx, yy). source ! ((yy * w + xx) * 4 + c)) ` window w h x y)"
    if "x < w" "y < h" "c < 4" for x y c
  proof -
    have "result ! (4 * (y * w + x) + c) = channelMean source w h x y c"
      using r(3) that by blast
    then have "result ! ((y * w + x) * 4 + c) = channelMean source w h x y c"
      by (simp only: mult.commute [of _ 4])
    then show ?thesis
      using channelMean_Min_Max [OF that(1,2), of source c] by simp
  qed
  have b: "result = source" if "\<forall>i<length source. source ! i = v"
  proof (rule nth_equalityI)
    show "length result = length source" using r(2) len by simp
  next
    fix i assume "i < length result"
    then have i: "i < 4 * (w * h)" using r(2) by simp
    have "\<exists>result'. boxBlur source w h = Some result' \<and> length result' = 4 * (w * h)
            \<and> (\<forall>i<4 * (w * h). v \<le> result' ! i \<and> result' ! i \<le> v)"
      using that len by (intro boxBlur_range) auto
    then have "v \<le> result ! i \<and> result ! i \<le> v"
      using r(1) i by auto
    then show "result ! i = source ! i"
      using that i len by simp
  qed
  have c: "\<forall>i<length result. 0 \<le> result ! i \<and> result ! i \<le> 255"
    if "\<forall>i<length source. 0 \<le> source ! i \<and> source ! i \<le> 255"
  proof -
    have "\<exists>result'. boxBlur source w h = Some result' \<and> length result' = 4 * (w * h)
            \<and> (\<forall>i<4 * (w * h). 0 \<le> result' ! i \<and> result' ! i \<le> 255)"
      using that len by (intro boxBlur_range) auto
    then show ?thesis using r(1,2) by auto
  qed
  have d: "\<exists>mixed. denoisePass adjustments w h source = Some mixed
             \<and> (\<forall>i<length mixed. 0 \<le> mixed ! i \<and> mixed ! i \<le> 255)"
    if "\<forall>i<length source. 0 \<le> source ! i \<and> source ! i \<le> 255"
  proof -
    have "\<exists>mixed. denoisePass adjustments w h source = Some mixed \<and> length mixed = 4 * (w * h)
           \<and> (\<forall>i<4 * (w * h). 0 \<le> mixed ! i \<and> mixed ! i \<le> 255)"
      using that len by (intro denoisePass_range) auto
    then show ?thesis by auto
  qed
  show ?thesis
    using r(1) a b c d by blast
qed

text \<open>
  The theorem at the constant 2\<times>1 buffer of sevens, with the default adjustments
  (\<open>denoise = 18\<close>).
\<close>

theorem boxBlur_within_window_bounds_witness:
  "length (replicate 8 (7::real)) = 2 * 1 * 4
   \<and> boxBlur (replicate 8 7) 2 1 = Some (replicate 8 7)
   \<and> (\<exists>mixed. denoisePass DEFAULT_ADJUSTMENTS 2 1 (replicate 8 7) = Some mixed
         \<and> (\<forall>i<length mixed. 0 \<le> mixed ! i \<and> mixed ! i \<le> 255))"
proof -
  let ?s = "replicate 8 (7::real)"
  have len: "length ?s = 2 * 1 * 4" by simp
  obtain result where r: "boxBlur ?s 2 1 = Some result"
      "(\<forall>i<length ?s. ?s ! i = 7) \<longrightarrow> result = ?s"
      "(\<forall>i<length ?s. 0 \<le> ?s ! i \<and> ?s ! i \<le> 255) \<longrightarrow>
         (\<exists>mixed. denoisePass DEFAULT_ADJUSTMENTS 2 1 ?s = Some mixed
            \<and> (\<forall>i<length mixed. 0 \<le> mixed ! i \<and> mixed ! i \<le> 255))"
    using boxBlur_within_window_bounds [OF len, of 7 DEFAULT_ADJUSTMENTS] by auto
  have "result = ?s" using r(2) by simp
  moreover have "\<exists>mixed. denoisePass DEFAULT_ADJUSTMENTS 2 1 ?s = Some mixed
            \<and> (\<forall>i<length mixed. 0 \<le> mixed ! i \<and> mixed ! i \<le> 255)"
    using r(3) by simp
  ultimately show ?thesis using r(1) by simp
qed

end
